theory Spec2Isabelle
  imports
    Main
    "HOL-Library.Word"
    "HOL-Library.Char_ord"
    "HOL-Library.List_Lexorder"
    "HOL-Library.AList"
begin

section \<open>The C++ command-line decoder of multijob\<close>

text \<open>
  The development embeds the C++ port of the command-line decoder:
  \<^verbatim>\<open>cpp/multijob.cpp\<close> (\<^verbatim>\<open>split_arg\<close>, \<^verbatim>\<open>separate_argv\<close>, \<^verbatim>\<open>parse_commandline\<close>),
  \<^verbatim>\<open>cpp/Args.cpp\<close> in its revision that delegates to \<^verbatim>\<open>conversion.h\<close>
  (\<^verbatim>\<open>get_s\<close>, \<^verbatim>\<open>get_i\<close>, \<^verbatim>\<open>get_d\<close>, \<^verbatim>\<open>get_b\<close>, \<^verbatim>\<open>no_further_arguments\<close>),
  \<^verbatim>\<open>conversion.cpp\<close> (\<^verbatim>\<open>convert\<close>, \<^verbatim>\<open>convert_str_to_i\<close>, \<^verbatim>\<open>convert_str_to_ul\<close>,
  \<^verbatim>\<open>convert_str_to_ld\<close>) and \<^verbatim>\<open>JoinedAndQuoted.h\<close>.

  Conventions of the embedding:
  \<^item> a \<^verbatim>\<open>std::string\<close> is a \<^typ>\<open>string\<close> (a list of 8-bit characters);
  \<^item> a thrown exception is the \<open>Inl\<close> branch of a sum; a member function that mutates
    the object returns the object's state after the call next to its result, also when
    the result is an exception;
  \<^item> a \<^verbatim>\<open>std::unordered_map<std::string, std::string>\<close> is an association list with
    pairwise distinct keys: \<^verbatim>\<open>m[k] = v\<close> is \<^const>\<open>AList.update\<close>, \<^verbatim>\<open>find\<close> is
    \<^const>\<open>map_of\<close>, \<^verbatim>\<open>erase\<close> is \<^const>\<open>AList.delete\<close>. The iteration order of the container
    is unspecified in C++; the code sorts the keys before it prints them;
  \<^item> \<^verbatim>\<open>ID\<close> is \<^verbatim>\<open>std::uint32_t\<close>, a \<^typ>\<open>32 word\<close>; \<^verbatim>\<open>unsigned long\<close> is taken to be
    64 bits wide and \<^verbatim>\<open>int\<close> 32 bits wide (the LP64 data model);
  \<^item> \<^verbatim>\<open>argv\<close> with \<^verbatim>\<open>argc\<close> is the list of the \<^verbatim>\<open>argc\<close> strings \<^verbatim>\<open>argv[0..argc-1]\<close>.

  \<^verbatim>\<open>Args::get_u\<close> calls \<^verbatim>\<open>convert_str_to_u\<close>, which is declared nowhere in the sources
  at hand; it is left out.
\<close>

subsection \<open>Errors and messages\<close>

text \<open>
  \<^verbatim>\<open>MultijobError\<close> is the only exception class of the library: a
  \<^verbatim>\<open>std::runtime_error\<close> that carries its message. The macro \<^verbatim>\<open>MULTIJOB_ERROR\<close> builds
  the message from stream operations and puts \<^verbatim>\<open>"multijob: "\<close> in front of it. The
  sources hold the header \<^verbatim>\<open>MultijobError.h\<close> in the revision where the macro is a
  statement that throws; the functions embedded here write \<^verbatim>\<open>throw MULTIJOB_ERROR(...)\<close>,
  with the same messages.
\<close>

datatype error = MultijobError (what: string)

definition MULTIJOB_ERROR :: "string \<Rightarrow> error" where
  "MULTIJOB_ERROR msg_stream_operations = MultijobError (''multijob: '' @ msg_stream_operations)"

text \<open>
  \<^verbatim>\<open>std::quoted\<close> with its default delimiter and escape character: the string between
  double quotes, each double quote and each backslash of it preceded by a backslash.
\<close>

definition dquote :: char where
  "dquote = CHR 0x22"

definition backslash :: char where
  "backslash = CHR 0x5C"

definition quoted :: "string \<Rightarrow> string" where
  "quoted s =
     dquote # concat (map (\<lambda>c. if c = dquote \<or> c = backslash then [backslash, c] else [c]) s)
       @ [dquote]"

text \<open>
  \<^verbatim>\<open>JoinedAndQuoted::operator<<\<close>: the loop over the range with its \<^verbatim>\<open>want_comma\<close>
  flag. The separator that the object stores is not used: the loop writes \<^verbatim>\<open>", "\<close>.
\<close>

fun joined_loop :: "bool \<Rightarrow> string list \<Rightarrow> string \<Rightarrow> string" where
  "joined_loop want_comma [] out = out"
| "joined_loop want_comma (it # rest) out =
     joined_loop True rest ((if want_comma then out @ '', '' else out) @ quoted it)"

definition joined_and_quoted :: "string \<Rightarrow> string list \<Rightarrow> string" where
  "joined_and_quoted sep keys = joined_loop False keys []"

subsection \<open>Splitting the argument vector\<close>

text \<open>\<^verbatim>\<open>std::string::find(char)\<close>: the first position of the character, \<open>None\<close> for \<^verbatim>\<open>npos\<close>.\<close>

fun find_char :: "char \<Rightarrow> string \<Rightarrow> nat option" where
  "find_char c [] = None"
| "find_char c (x # xs) = (if x = c then Some 0 else map_option Suc (find_char c xs))"

definition split_arg :: "string \<Rightarrow> error + (string \<times> string)" where
  "split_arg arg =
     (case find_char CHR ''='' arg of
        None \<Rightarrow> Inl (MULTIJOB_ERROR (''can't split as argument: '' @ quoted arg))
      | Some sep_pos \<Rightarrow> Inr (take sep_pos arg, drop (sep_pos + 1) arg))"

type_synonym MapStrStr = "(string \<times> string) list"

text \<open>
  The first loop of \<^verbatim>\<open>separate_argv\<close>: it stops at the end of the vector or at the
  first token equal to the separator, and returns the map together with the tokens from
  the position it stopped at.
\<close>

fun special_loop :: "string \<Rightarrow> string list \<Rightarrow> MapStrStr \<Rightarrow> error + (MapStrStr \<times> string list)" where
  "special_loop sep [] special_args = Inr (special_args, [])"
| "special_loop sep (a # argv) special_args =
     (if a = sep then Inr (special_args, a # argv)
      else case split_arg a of
             Inl e \<Rightarrow> Inl e
           | Inr (key, val) \<Rightarrow> special_loop sep argv (AList.update key val special_args))"

text \<open>The second loop of \<^verbatim>\<open>separate_argv\<close>: every remaining token is split.\<close>

fun normal_loop :: "string list \<Rightarrow> MapStrStr \<Rightarrow> error + MapStrStr" where
  "normal_loop [] normal_args = Inr normal_args"
| "normal_loop (a # argv) normal_args =
     (case split_arg a of
        Inl e \<Rightarrow> Inl e
      | Inr (key, val) \<Rightarrow> normal_loop argv (AList.update key val normal_args))"

definition separate_argv :: "string list \<Rightarrow> string \<Rightarrow> error + (MapStrStr \<times> MapStrStr)" where
  "separate_argv argv sep =
     (case special_loop sep argv [] of
        Inl e \<Rightarrow> Inl e
      | Inr (special_args, argv1) \<Rightarrow>
          (let argv2 = (case argv1 of [] \<Rightarrow> [] | _ # rest \<Rightarrow> rest)
           in case normal_loop argv2 [] of
                Inl e \<Rightarrow> Inl e
              | Inr normal_args \<Rightarrow> Inr (special_args, normal_args)))"

subsection \<open>The standard library's integer conversions\<close>

text \<open>
  \<^verbatim>\<open>std::stoi\<close> and \<^verbatim>\<open>std::stoul\<close> are not code of the repository. They are modelled after
  ISO C \<^verbatim>\<open>strtol\<close>/\<^verbatim>\<open>strtoul\<close> in the "C" locale and the C++ wrappers around them:
  optional white space, an optional sign, with base 0 or 16 an optional \<^verbatim>\<open>0x\<close>/\<^verbatim>\<open>0X\<close>
  in front of a hexadecimal digit, with base 0 a leading \<^verbatim>\<open>0\<close> for octal, then the
  longest run of digits of the base. No digit: \<^verbatim>\<open>std::invalid_argument\<close>. A value that
  the result type cannot hold: \<^verbatim>\<open>std::out_of_range\<close>. \<^verbatim>\<open>strtoul\<close> negates a value with a
  minus sign in the unsigned type. The \<^verbatim>\<open>what()\<close> strings are those of libstdc++, the
  name of the function.
\<close>

datatype std_exception = invalid_argument string | out_of_range string

definition isspace :: "char \<Rightarrow> bool" where
  "isspace c = (c = CHR '' '' \<or> (9 \<le> (of_char c :: nat) \<and> (of_char c :: nat) \<le> 13))"

definition digit_value :: "char \<Rightarrow> nat option" where
  "digit_value c =
     (let n = (of_char c :: nat)
      in if 48 \<le> n \<and> n \<le> 57 then Some (n - 48)
         else if 97 \<le> n \<and> n \<le> 122 then Some (n - 87)
         else if 65 \<le> n \<and> n \<le> 90 then Some (n - 55)
         else None)"

definition is_digit_in :: "nat \<Rightarrow> char \<Rightarrow> bool" where
  "is_digit_in b c = (case digit_value c of None \<Rightarrow> False | Some d \<Rightarrow> d < b)"

definition digit_of :: "char \<Rightarrow> nat" where
  "digit_of c = (case digit_value c of None \<Rightarrow> 0 | Some d \<Rightarrow> d)"

definition is_sign :: "string \<Rightarrow> bool" where
  "is_sign s = (case s of [] \<Rightarrow> False | c # _ \<Rightarrow> c = CHR ''-'' \<or> c = CHR ''+'')"

definition is_minus :: "string \<Rightarrow> bool" where
  "is_minus s = (case s of [] \<Rightarrow> False | c # _ \<Rightarrow> c = CHR ''-'')"

definition has_hex_prefix :: "string \<Rightarrow> bool" where
  "has_hex_prefix s =
     (case s of
        z # x # h # _ \<Rightarrow> z = CHR ''0'' \<and> (x = CHR ''x'' \<or> x = CHR ''X'') \<and> is_digit_in 16 h
      | _ \<Rightarrow> False)"

definition has_zero_prefix :: "string \<Rightarrow> bool" where
  "has_zero_prefix s = (case s of [] \<Rightarrow> False | z # _ \<Rightarrow> z = CHR ''0'')"

text \<open>
  The scan shared by \<^verbatim>\<open>strtol\<close> and \<^verbatim>\<open>strtoul\<close>: whether a minus sign was read, the
  magnitude of the digits, and the number of characters consumed; \<open>None\<close> when no
  conversion could be performed.
\<close>

definition strto_scan :: "string \<Rightarrow> nat \<Rightarrow> (bool \<times> int \<times> nat) option" where
  "strto_scan s base =
     (let ws = takeWhile isspace s;
          s1 = dropWhile isspace s;
          s2 = (if is_sign s1 then tl s1 else s1);
          hex = ((base = 0 \<or> base = 16) \<and> has_hex_prefix s2);
          b = (if base \<noteq> 0 then base else if hex then 16 else if has_zero_prefix s2 then 8 else 10);
          s3 = (if hex then drop 2 s2 else s2);
          ds = takeWhile (is_digit_in b) s3
      in if ds = [] then None
         else Some (is_minus s1,
                    foldl (\<lambda>acc c. acc * int b + int (digit_of c)) 0 ds,
                    length ws + (if is_sign s1 then 1 else 0) + (if hex then 2 else 0) + length ds))"

definition ULONG_MAX :: int where
  "ULONG_MAX = 2 ^ 64 - 1"

definition LONG_MAX :: int where
  "LONG_MAX = 2 ^ 63 - 1"

definition LONG_MIN :: int where
  "LONG_MIN = - (2 ^ 63)"

definition INT_MAX :: int where
  "INT_MAX = 2 ^ 31 - 1"

definition INT_MIN :: int where
  "INT_MIN = - (2 ^ 31)"

definition stoul :: "string \<Rightarrow> nat \<Rightarrow> std_exception + (64 word \<times> nat)" where
  "stoul str base =
     (case strto_scan str base of
        None \<Rightarrow> Inl (invalid_argument ''stoul'')
      | Some (neg, magnitude, pos) \<Rightarrow>
          if magnitude > ULONG_MAX then Inl (out_of_range ''stoul'')
          else Inr (if neg then - word_of_int magnitude else word_of_int magnitude, pos))"

definition stoi :: "string \<Rightarrow> nat \<Rightarrow> std_exception + (int \<times> nat)" where
  "stoi str base =
     (case strto_scan str base of
        None \<Rightarrow> Inl (invalid_argument ''stoi'')
      | Some (neg, magnitude, pos) \<Rightarrow>
          (let v = (if neg then - magnitude else magnitude)
           in if v < LONG_MIN \<or> LONG_MAX < v \<or> v < INT_MIN \<or> INT_MAX < v
              then Inl (out_of_range ''stoi'')
              else Inr (v, pos)))"

subsection \<open>conversion.cpp\<close>

text \<open>
  The three messages of \<^verbatim>\<open>convert\<close>, in the order of the source: the converter threw
  \<^verbatim>\<open>std::invalid_argument\<close>, it threw \<^verbatim>\<open>std::out_of_range\<close>, or it left characters
  unconsumed.
\<close>

definition not_parseable_error :: "string \<Rightarrow> string \<Rightarrow> string \<Rightarrow> string \<Rightarrow> error" where
  "not_parseable_error type_descr name s ex_what =
     MULTIJOB_ERROR (''can't parse '' @ name @ '': '' @ quoted s @ '' is not '' @ type_descr
                     @ '': '' @ ex_what)"

definition out_of_range_error :: "string \<Rightarrow> string \<Rightarrow> string \<Rightarrow> error" where
  "out_of_range_error name s ex_what =
     MULTIJOB_ERROR (''can't parse '' @ name @ '': '' @ quoted s @ '' is out of range: ''
                     @ ex_what)"

definition unconsumed_chars_error :: "string \<Rightarrow> string \<Rightarrow> string \<Rightarrow> error" where
  "unconsumed_chars_error type_descr name s =
     MULTIJOB_ERROR (''can't parse '' @ name @ '': '' @ quoted s @ '' is not '' @ type_descr)"

definition convert ::
  "string \<Rightarrow> string \<Rightarrow> string \<Rightarrow> (string \<Rightarrow> std_exception + ('r \<times> nat)) \<Rightarrow> error + 'r" where
  "convert type_descr name s converter =
     (case converter s of
        Inl (invalid_argument ex_what) \<Rightarrow> Inl (not_parseable_error type_descr name s ex_what)
      | Inl (out_of_range ex_what) \<Rightarrow> Inl (out_of_range_error name s ex_what)
      | Inr (result, consumed_chars) \<Rightarrow>
          if consumed_chars \<noteq> length s then Inl (unconsumed_chars_error type_descr name s)
          else Inr result)"

definition convert_str_to_i :: "string \<Rightarrow> string \<Rightarrow> error + int" where
  "convert_str_to_i name s = convert ''an integer number'' name s (\<lambda>str. stoi str 0)"

definition convert_str_to_ul :: "string \<Rightarrow> string \<Rightarrow> error + 64 word" where
  "convert_str_to_ul name s = convert ''an unsigned integer number'' name s (\<lambda>str. stoul str 0)"

text \<open>
  \<^verbatim>\<open>convert_str_to_ld\<close> calls \<^verbatim>\<open>std::stod\<close>. Floating-point parsing is left open: the
  model takes the behaviour of \<^verbatim>\<open>std::stod\<close> on a string as a parameter.
\<close>

definition convert_str_to_ld ::
  "(string \<Rightarrow> std_exception + ('d \<times> nat)) \<Rightarrow> string \<Rightarrow> string \<Rightarrow> error + 'd" where
  "convert_str_to_ld stod name s = convert ''a floating point number'' name s stod"

subsection \<open>Args\<close>

record Args =
  m_job_id :: "32 word"
  m_repetition_id :: "32 word"
  m_args :: MapStrStr

definition job_id :: "Args \<Rightarrow> 32 word" where
  "job_id self = m_job_id self"

definition repetition_id :: "Args \<Rightarrow> 32 word" where
  "repetition_id self = m_repetition_id self"

definition sorted_keys :: "MapStrStr \<Rightarrow> string list" where
  "sorted_keys m = sort (map fst m)"

definition no_further_arguments :: "Args \<Rightarrow> (error + unit) \<times> Args" where
  "no_further_arguments self =
     (if m_args self = [] then (Inr (), self)
      else (Inl (MULTIJOB_ERROR (''params were not consumed: ''
                                 @ joined_and_quoted '', '' (sorted_keys (m_args self)))),
            self))"

definition get_s :: "string \<Rightarrow> Args \<Rightarrow> (error + string) \<times> Args" where
  "get_s name self =
     (case map_of (m_args self) name of
        None \<Rightarrow> (Inl (MULTIJOB_ERROR (''param does not exist: '' @ quoted name)), self)
      | Some result \<Rightarrow> (Inr result, self\<lparr>m_args := AList.delete name (m_args self)\<rparr>))"

definition get_i :: "string \<Rightarrow> Args \<Rightarrow> (error + int) \<times> Args" where
  "get_i name self =
     (case get_s name self of
        (Inl e, self') \<Rightarrow> (Inl e, self')
      | (Inr s, self') \<Rightarrow> (convert_str_to_i name s, self'))"

definition get_d ::
  "(string \<Rightarrow> std_exception + ('d \<times> nat)) \<Rightarrow> string \<Rightarrow> Args \<Rightarrow> (error + 'd) \<times> Args" where
  "get_d stod name self =
     (case get_s name self of
        (Inl e, self') \<Rightarrow> (Inl e, self')
      | (Inr s, self') \<Rightarrow> (convert_str_to_ld stod name s, self'))"

definition get_b :: "string \<Rightarrow> Args \<Rightarrow> (error + bool) \<times> Args" where
  "get_b name self =
     (case get_s name self of
        (Inl e, self') \<Rightarrow> (Inl e, self')
      | (Inr s, self') \<Rightarrow>
          if s = ''True'' \<or> s = ''true'' then (Inr True, self')
          else if s = ''False'' \<or> s = ''false'' then (Inr False, self')
          else (Inl (MULTIJOB_ERROR (''param '' @ quoted name @ '' is not boolean: '' @ quoted s)),
                self'))"

subsection \<open>parse_commandline\<close>

record JobArgvConfig =
  job_id_key :: string
  repetition_id_key :: string

definition default_config :: JobArgvConfig where
  "default_config = \<lparr>job_id_key = ''--id'', repetition_id_key = ''--rep''\<rparr>"

text \<open>
  \<^verbatim>\<open>parse_commandline\<close> skips \<^verbatim>\<open>argv[0]\<close> with \<^verbatim>\<open>--argc; ++argv\<close> before anything else.
  The C++ function has no defined behaviour for \<^verbatim>\<open>argc = 0\<close>; the model gives the empty
  list of tokens there, and no theorem below is about that case.
\<close>

definition parse_commandline :: "string list \<Rightarrow> JobArgvConfig \<Rightarrow> error + Args" where
  "parse_commandline argv config =
     (case separate_argv (drop 1 argv) ''--'' of
        Inl e \<Rightarrow> Inl e
      | Inr (special_args, normal_args) \<Rightarrow>
          (case map_of special_args (job_id_key config) of
             None \<Rightarrow> Inl (MULTIJOB_ERROR (''special job_id argument ''
                                          @ quoted (job_id_key config) @ '' required''))
           | Some job_id_str \<Rightarrow>
               (let special_args1 = AList.delete (job_id_key config) special_args
                in case map_of special_args1 (repetition_id_key config) of
                     None \<Rightarrow> Inl (MULTIJOB_ERROR (''special repetition_id argument ''
                                                  @ quoted (repetition_id_key config)
                                                  @ '' required''))
                   | Some repetition_id_str \<Rightarrow>
                       (let special_args2 = AList.delete (repetition_id_key config) special_args1
                        in if special_args2 \<noteq> []
                           then Inl (MULTIJOB_ERROR
                                  (''unknown special arguments before '' @ quoted ''--''
                                   @ '' separator: ''
                                   @ joined_and_quoted '', '' (sorted_keys special_args2)))
                           else case convert_str_to_ul ''job_id'' job_id_str of
                                  Inl e \<Rightarrow> Inl e
                                | Inr job_id_ul \<Rightarrow>
                                    (case convert_str_to_ul ''repetition_id'' repetition_id_str of
                                       Inl e \<Rightarrow> Inl e
                                     | Inr repetition_id_ul \<Rightarrow>
                                         Inr \<lparr>m_job_id = ucast job_id_ul,
                                              m_repetition_id = ucast repetition_id_ul,
                                              m_args = normal_args\<rparr>)))))"

section \<open>Vocabulary of the specification\<close>

text \<open>
  The specification speaks of regions of the token sequence, of keys and values of
  tokens, and of kinds of errors. The C++ library has one exception class; a kind of
  error is the message that the corresponding \<^verbatim>\<open>throw\<close> of the source builds.
\<close>

subsection \<open>Regions, keys and values\<close>

definition special_region :: "string list \<Rightarrow> string list" where
  "special_region toks = takeWhile (\<lambda>t. t \<noteq> ''--'') toks"

definition normal_region :: "string list \<Rightarrow> string list" where
  "normal_region toks = drop 1 (dropWhile (\<lambda>t. t \<noteq> ''--'') toks)"

definition has_delimiter :: "string \<Rightarrow> bool" where
  "has_delimiter t = (CHR ''='' \<in> set t)"

definition key_of :: "string \<Rightarrow> string" where
  "key_of t = takeWhile (\<lambda>c. c \<noteq> CHR ''='') t"

definition value_of :: "string \<Rightarrow> string" where
  "value_of t = drop 1 (dropWhile (\<lambda>c. c \<noteq> CHR ''='') t)"

definition kv_store :: "MapStrStr \<Rightarrow> string list \<Rightarrow> MapStrStr" where
  "kv_store m ts = foldl (\<lambda>acc t. AList.update (key_of t) (value_of t) acc) m ts"

definition first_malformed :: "string list \<Rightarrow> string option" where
  "first_malformed toks =
     List.find (\<lambda>t. \<not> has_delimiter t) (special_region toks @ normal_region toks)"

subsection \<open>Error kinds\<close>

definition comma_joined :: "string list \<Rightarrow> string" where
  "comma_joined xs = (case xs of [] \<Rightarrow> [] | x # rest \<Rightarrow> x @ concat (map (\<lambda>y. '', '' @ y) rest))"

definition MalformedArgumentError :: "string \<Rightarrow> error" where
  "MalformedArgumentError arg =
     MultijobError (''multijob: can't split as argument: '' @ quoted arg)"

definition MissingSpecialArgumentError :: "string \<Rightarrow> string \<Rightarrow> error" where
  "MissingSpecialArgumentError which key =
     MultijobError (''multijob: special '' @ which @ '' argument '' @ quoted key @ '' required'')"

definition UnknownSpecialArgumentError :: "string list \<Rightarrow> error" where
  "UnknownSpecialArgumentError keys =
     MultijobError (''multijob: unknown special arguments before '' @ quoted ''--''
                    @ '' separator: '' @ comma_joined (map quoted keys))"

definition MissingParameterError :: "string \<Rightarrow> error" where
  "MissingParameterError name = MultijobError (''multijob: param does not exist: '' @ quoted name)"

definition UnconsumedArgumentsError :: "string list \<Rightarrow> error" where
  "UnconsumedArgumentsError keys =
     MultijobError (''multijob: params were not consumed: '' @ comma_joined (map quoted keys))"

definition NotBooleanError :: "string \<Rightarrow> string \<Rightarrow> error" where
  "NotBooleanError name s =
     MultijobError (''multijob: param '' @ quoted name @ '' is not boolean: '' @ quoted s)"

text \<open>
  A failure of \<^verbatim>\<open>convert_str_to_ul\<close> on an ID string is an \<open>InvalidIdError\<close>, a failure
  of \<^verbatim>\<open>convert_str_to_i\<close> on a parameter an integer \<open>CoercionError\<close>: each one of the three
  errors of \<^verbatim>\<open>convert\<close>.
\<close>

definition is_InvalidIdError :: "string \<Rightarrow> string \<Rightarrow> error \<Rightarrow> bool" where
  "is_InvalidIdError name s e =
     (e = not_parseable_error ''an unsigned integer number'' name s ''stoul''
      \<or> e = out_of_range_error name s ''stoul''
      \<or> e = unconsumed_chars_error ''an unsigned integer number'' name s)"

definition is_IntCoercionError :: "string \<Rightarrow> string \<Rightarrow> error \<Rightarrow> bool" where
  "is_IntCoercionError name s e =
     (e = not_parseable_error ''an integer number'' name s ''stoi''
      \<or> e = out_of_range_error name s ''stoi''
      \<or> e = unconsumed_chars_error ''an integer number'' name s)"

text \<open>A message mentions a text when the text occurs in it as a contiguous part.\<close>

fun starts_with :: "string \<Rightarrow> string \<Rightarrow> bool" where
  "starts_with [] msg = True"
| "starts_with (p # part) [] = False"
| "starts_with (p # part) (c # msg) = (p = c \<and> starts_with part msg)"

fun mentions :: "string \<Rightarrow> string \<Rightarrow> bool" where
  "mentions part [] = (part = [])"
| "mentions part (c # msg) = (starts_with part (c # msg) \<or> mentions part msg)"

subsection \<open>Decimal numerals\<close>

definition is_decimal_digit :: "char \<Rightarrow> bool" where
  "is_decimal_digit c = (48 \<le> (of_char c :: nat) \<and> (of_char c :: nat) \<le> 57)"

definition is_decimal :: "string \<Rightarrow> bool" where
  "is_decimal s = (s \<noteq> [] \<and> list_all is_decimal_digit s)"

definition decimal_value :: "string \<Rightarrow> nat" where
  "decimal_value s = foldl (\<lambda>acc c. 10 * acc + ((of_char c :: nat) - 48)) 0 s"

text \<open>
  The forms that base 0 of \<^verbatim>\<open>strtoul\<close> reads differently from a plain decimal numeral:
  leading white space, a sign, the prefix \<^verbatim>\<open>0x\<close>/\<^verbatim>\<open>0X\<close>, and a leading zero in front of
  further digits.
\<close>

definition lenient_start :: "string \<Rightarrow> bool" where
  "lenient_start s = ((case s of [] \<Rightarrow> False | c # _ \<Rightarrow> isspace c) \<or> is_sign s \<or> has_hex_prefix s)"

definition canonical_decimal :: "string \<Rightarrow> bool" where
  "canonical_decimal s = (is_decimal s \<and> (s = ''0'' \<or> \<not> has_zero_prefix s))"

subsection \<open>Consumed parameters\<close>

text \<open>
  What it means that a call has consumed the parameter \<open>name\<close> of \<open>self\<close> and left
  \<open>self'\<close>: the entry is erased and nothing else is changed, a later \<^verbatim>\<open>get_s\<close> of the name
  fails because the parameter does not exist, and \<^verbatim>\<open>no_further_arguments\<close> does not report
  the name.
\<close>

definition consumed :: "string \<Rightarrow> Args \<Rightarrow> Args \<Rightarrow> bool" where
  "consumed name self self' =
     (self' = self\<lparr>m_args := AList.delete name (m_args self)\<rparr>
      \<and> map_of (m_args self') name = None
      \<and> get_s name self' = (Inl (MissingParameterError name), self')
      \<and> no_further_arguments self'
          = (if m_args self' = [] then Inr ()
             else Inl (UnconsumedArgumentsError (sorted_keys (m_args self'))), self')
      \<and> name \<notin> set (sorted_keys (m_args self')))"

section \<open>Basic facts\<close>

lemma parse_commandline_skips_first:
  "parse_commandline (a # toks) config = parse_commandline ([] # toks) config"
  by (simp add: parse_commandline_def)

lemma joined_loop_append:
  "joined_loop True ks out = out @ concat (map (\<lambda>k. '', '' @ quoted k) ks)"
  by (induction ks arbitrary: out) simp_all

lemma joined_and_quoted_comma_joined:
  "joined_and_quoted sep ks = comma_joined (map quoted ks)"
  by (cases ks) (simp_all add: joined_and_quoted_def comma_joined_def joined_loop_append comp_def)

lemma get_s_present:
  "map_of (m_args self) name = Some s \<Longrightarrow>
   get_s name self = (Inr s, self\<lparr>m_args := AList.delete name (m_args self)\<rparr>)"
  by (simp add: get_s_def)

lemma get_s_absent:
  "map_of (m_args self) name = None \<Longrightarrow> get_s name self = (Inl (MissingParameterError name), self)"
  by (simp add: get_s_def MissingParameterError_def MULTIJOB_ERROR_def)

lemma map_of_delete_same: "map_of (AList.delete k al) k = None"
  by (simp add: AList.delete_eq map_of_eq_None_iff image_iff)

lemma get_i_state: "snd (get_i name self) = snd (get_s name self)"
  by (simp add: get_i_def split: prod.splits sum.splits)

lemma get_d_state: "snd (get_d stod name self) = snd (get_s name self)"
  by (simp add: get_d_def split: prod.splits sum.splits)

lemma get_b_state: "snd (get_b name self) = snd (get_s name self)"
  by (simp add: get_b_def split: prod.splits sum.splits)

lemma sorted_keys_delete: "name \<notin> set (sorted_keys (AList.delete name al))"
  by (simp add: sorted_keys_def AList.delete_eq image_iff)

lemma no_further_arguments_kind:
  "no_further_arguments self =
     (if m_args self = [] then Inr () else Inl (UnconsumedArgumentsError (sorted_keys (m_args self))),
      self)"
  by (simp add: no_further_arguments_def UnconsumedArgumentsError_def MULTIJOB_ERROR_def
      joined_and_quoted_comma_joined)

lemma consumed_after_get_s:
  "map_of (m_args self) name = Some s \<Longrightarrow> consumed name self (snd (get_s name self))"
  by (simp add: consumed_def get_s_present get_s_absent map_of_delete_same sorted_keys_delete
      no_further_arguments_kind)

section \<open>The scenario of the test suite\<close>

text \<open>
  C1. Whatever the program name is, the argument vector with the tokens
  \<^verbatim>\<open>--id=4 --rep=7 -- a=b\<close> after it is parsed into an \<^verbatim>\<open>Args\<close> with \<^verbatim>\<open>job_id() == 4\<close> and
  \<^verbatim>\<open>repetition_id() == 7\<close>; \<^verbatim>\<open>get_s("a")\<close> on it returns \<^verbatim>\<open>"b"\<close> and consumes the
  parameter; a following \<^verbatim>\<open>get_s("nonexistent")\<close> fails with the error for a parameter
  that does not exist.
\<close>

theorem parse_commandline_scenario:
  "parse_commandline (prog # [''--id=4'', ''--rep=7'', ''--'', ''a=b'']) default_config
     = Inr \<lparr>m_job_id = 4, m_repetition_id = 7, m_args = [(''a'', ''b'')]\<rparr>
   \<and> job_id \<lparr>m_job_id = 4, m_repetition_id = 7, m_args = [(''a'', ''b'')]\<rparr> = 4
   \<and> repetition_id \<lparr>m_job_id = 4, m_repetition_id = 7, m_args = [(''a'', ''b'')]\<rparr> = 7
   \<and> get_s ''a'' \<lparr>m_job_id = 4, m_repetition_id = 7, m_args = [(''a'', ''b'')]\<rparr>
     = (Inr ''b'', \<lparr>m_job_id = 4, m_repetition_id = 7, m_args = []\<rparr>)
   \<and> get_s ''nonexistent'' \<lparr>m_job_id = 4, m_repetition_id = 7, m_args = []\<rparr>
     = (Inl (MissingParameterError ''nonexistent''),
        \<lparr>m_job_id = 4, m_repetition_id = 7, m_args = []\<rparr>)"
proof -
  have "parse_commandline ([] # [''--id=4'', ''--rep=7'', ''--'', ''a=b'']) default_config
     = Inr \<lparr>m_job_id = 4, m_repetition_id = 7, m_args = [(''a'', ''b'')]\<rparr>"
    by code_simp
  then have p: "parse_commandline (prog # [''--id=4'', ''--rep=7'', ''--'', ''a=b'']) default_config
     = Inr \<lparr>m_job_id = 4, m_repetition_id = 7, m_args = [(''a'', ''b'')]\<rparr>"
    by (simp only: parse_commandline_skips_first [of prog])
  have g1: "get_s ''a'' \<lparr>m_job_id = 4, m_repetition_id = 7, m_args = [(''a'', ''b'')]\<rparr>
     = (Inr ''b'', \<lparr>m_job_id = 4, m_repetition_id = 7, m_args = []\<rparr>)"
    by (simp add: get_s_present)
  have g2: "get_s ''nonexistent'' \<lparr>m_job_id = 4, m_repetition_id = 7, m_args = []\<rparr>
     = (Inl (MissingParameterError ''nonexistent''),
        \<lparr>m_job_id = 4, m_repetition_id = 7, m_args = []\<rparr>)"
    by (simp add: get_s_absent)
  show ?thesis using p g1 g2 by (simp add: job_id_def repetition_id_def)
qed

theorem parse_commandline_scenario_witness:
  "parse_commandline [''self'', ''--id=4'', ''--rep=7'', ''--'', ''a=b''] default_config
     = Inr \<lparr>m_job_id = 4, m_repetition_id = 7, m_args = [(''a'', ''b'')]\<rparr>"
  using parse_commandline_scenario [of "''self''"] by simp

section \<open>The program name\<close>

text \<open>
  C8. \<^verbatim>\<open>parse_commandline\<close> never looks at \<^verbatim>\<open>argv[0]\<close>: for an argument vector of at least
  one element the result, an \<^verbatim>\<open>Args\<close> or an error, is the same whatever the first element
  is. It is determined by the tokens \<^verbatim>\<open>argv[1..argc-1]\<close> alone, so the program name need not
  contain \<^verbatim>\<open>=\<close> and adds no special or normal argument.
\<close>

theorem parse_commandline_ignores_argv0:
  "parse_commandline (a # toks) config = parse_commandline (b # toks) config"
  by (simp add: parse_commandline_def)

theorem parse_commandline_ignores_argv0_witness:
  "parse_commandline [''./worker'', ''--id=4'', ''--rep=7'', ''--'', ''a=b''] default_config
     = Inr \<lparr>m_job_id = 4, m_repetition_id = 7, m_args = [(''a'', ''b'')]\<rparr>"
proof -
  have "parse_commandline [''--id=0'', ''--id=4'', ''--rep=7'', ''--'', ''a=b''] default_config
     = Inr \<lparr>m_job_id = 4, m_repetition_id = 7, m_args = [(''a'', ''b'')]\<rparr>"
    by code_simp
  then show ?thesis
    using parse_commandline_ignores_argv0
      [of "''./worker''" "[''--id=4'', ''--rep=7'', ''--'', ''a=b'']" default_config "''--id=0''"]
    by simp
qed

section \<open>Typed extraction\<close>

text \<open>
  C6. For a parameter that is present with the value \<open>s\<close>, \<^verbatim>\<open>get_b\<close> returns true exactly
  when \<open>s\<close> is \<^verbatim>\<open>"True"\<close> or \<^verbatim>\<open>"true"\<close>, false exactly when \<open>s\<close> is \<^verbatim>\<open>"False"\<close> or
  \<^verbatim>\<open>"false"\<close>, and fails with the error that the parameter is not boolean exactly for
  every other string.
\<close>

theorem get_b_literals:
  "map_of (m_args self) name = Some s \<Longrightarrow>
   (fst (get_b name self) = Inr True) = (s = ''True'' \<or> s = ''true'')
   \<and> (fst (get_b name self) = Inr False) = (s = ''False'' \<or> s = ''false'')
   \<and> (fst (get_b name self) = Inl (NotBooleanError name s))
       = (s \<noteq> ''True'' \<and> s \<noteq> ''true'' \<and> s \<noteq> ''False'' \<and> s \<noteq> ''false'')"
  by (simp add: get_b_def get_s_present NotBooleanError_def MULTIJOB_ERROR_def)

theorem get_b_literals_witness:
  "map_of (m_args \<lparr>m_job_id = 4, m_repetition_id = 5, m_args = [(''a'', ''yes'')]\<rparr>) ''a''
     = Some ''yes''
   \<and> fst (get_b ''a'' \<lparr>m_job_id = 4, m_repetition_id = 5, m_args = [(''a'', ''yes'')]\<rparr>)
       = Inl (NotBooleanError ''a'' ''yes'')
   \<and> map_of (m_args \<lparr>m_job_id = 4, m_repetition_id = 6, m_args = [(''a'', ''True'')]\<rparr>) ''a''
       = Some ''True''
   \<and> fst (get_b ''a'' \<lparr>m_job_id = 4, m_repetition_id = 6, m_args = [(''a'', ''True'')]\<rparr>)
       = Inr True"
proof -
  have h1: "map_of (m_args \<lparr>m_job_id = 4, m_repetition_id = 5, m_args = [(''a'', ''yes'')]\<rparr>) ''a''
     = Some ''yes''"
    by simp
  have h2: "map_of (m_args \<lparr>m_job_id = 4, m_repetition_id = 6, m_args = [(''a'', ''True'')]\<rparr>) ''a''
     = Some ''True''"
    by simp
  show ?thesis using h1 h2 get_b_literals [OF h1] get_b_literals [OF h2] by simp
qed

text \<open>
  C9. A typed extraction that fails is not atomic. When the parameter is present and
  \<^verbatim>\<open>get_i\<close>, \<^verbatim>\<open>get_d\<close> (for any behaviour of \<^verbatim>\<open>std::stod\<close>) or \<^verbatim>\<open>get_b\<close> fails, the
  parameter has been consumed all the same: it is erased from the remaining map, a later
  \<^verbatim>\<open>get_s\<close> of it fails because it does not exist, and \<^verbatim>\<open>no_further_arguments\<close> does not
  report it.
\<close>

theorem failed_extraction_consumes:
  "map_of (m_args self) name = Some s \<Longrightarrow>
   (fst (get_i name self) = Inl ei \<longrightarrow> consumed name self (snd (get_i name self)))
   \<and> (fst (get_d stod name self) = Inl ed \<longrightarrow> consumed name self (snd (get_d stod name self)))
   \<and> (fst (get_b name self) = Inl eb \<longrightarrow> consumed name self (snd (get_b name self)))"
  by (simp add: get_i_state get_d_state get_b_state consumed_after_get_s)

theorem failed_extraction_consumes_witness:
  "map_of (m_args \<lparr>m_job_id = 4, m_repetition_id = 5, m_args = [(''a'', ''4.2''), (''c'', ''d'')]\<rparr>) ''a''
     = Some ''4.2''
   \<and> fst (get_i ''a'' \<lparr>m_job_id = 4, m_repetition_id = 5, m_args = [(''a'', ''4.2''), (''c'', ''d'')]\<rparr>)
       = Inl (unconsumed_chars_error ''an integer number'' ''a'' ''4.2'')
   \<and> snd (get_i ''a'' \<lparr>m_job_id = 4, m_repetition_id = 5, m_args = [(''a'', ''4.2''), (''c'', ''d'')]\<rparr>)
       = \<lparr>m_job_id = 4, m_repetition_id = 5, m_args = [(''c'', ''d'')]\<rparr>
   \<and> fst (get_d (\<lambda>str. Inl (invalid_argument ''stod'') :: std_exception + (int \<times> nat)) ''a''
            \<lparr>m_job_id = 4, m_repetition_id = 5, m_args = [(''a'', ''4.2''), (''c'', ''d'')]\<rparr>)
       = Inl (not_parseable_error ''a floating point number'' ''a'' ''4.2'' ''stod'')
   \<and> fst (get_b ''a'' \<lparr>m_job_id = 4, m_repetition_id = 5, m_args = [(''a'', ''4.2''), (''c'', ''d'')]\<rparr>)
       = Inl (NotBooleanError ''a'' ''4.2'')
   \<and> consumed ''a'' \<lparr>m_job_id = 4, m_repetition_id = 5, m_args = [(''a'', ''4.2''), (''c'', ''d'')]\<rparr>
        \<lparr>m_job_id = 4, m_repetition_id = 5, m_args = [(''c'', ''d'')]\<rparr>"
proof -
  let ?A = "\<lparr>m_job_id = 4, m_repetition_id = 5, m_args = [(''a'', ''4.2''), (''c'', ''d'')]\<rparr>"
  have h: "map_of (m_args ?A) ''a'' = Some ''4.2''"
    by simp
  have c: "convert_str_to_i ''a'' ''4.2'' = Inl (unconsumed_chars_error ''an integer number'' ''a'' ''4.2'')"
    by code_simp
  have i: "fst (get_i ''a'' ?A) = Inl (unconsumed_chars_error ''an integer number'' ''a'' ''4.2'')"
    by (simp add: get_i_def get_s_present c)
  have si: "snd (get_i ''a'' ?A) = \<lparr>m_job_id = 4, m_repetition_id = 5, m_args = [(''c'', ''d'')]\<rparr>"
    by (simp add: get_i_state get_s_present)
  have d: "fst (get_d (\<lambda>str. Inl (invalid_argument ''stod'') :: std_exception + (int \<times> nat)) ''a'' ?A)
       = Inl (not_parseable_error ''a floating point number'' ''a'' ''4.2'' ''stod'')"
    by (simp add: get_d_def get_s_present convert_str_to_ld_def convert_def)
  have b: "fst (get_b ''a'' ?A) = Inl (NotBooleanError ''a'' ''4.2'')"
    by (simp add: get_b_def get_s_present NotBooleanError_def MULTIJOB_ERROR_def)
  from failed_extraction_consumes
      [OF h, where ei = "unconsumed_chars_error ''an integer number'' ''a'' ''4.2''"
         and stod = "\<lambda>str. Inl (invalid_argument ''stod'') :: std_exception + (int \<times> nat)"
         and ed = "not_parseable_error ''a floating point number'' ''a'' ''4.2'' ''stod''"
         and eb = "NotBooleanError ''a'' ''4.2''"] i
  have "consumed ''a'' ?A (snd (get_i ''a'' ?A))"
    by blast
  with h i si d b show ?thesis by simp
qed

section \<open>Unconsumed parameters\<close>

text \<open>
  C7. \<^verbatim>\<open>no_further_arguments\<close> returns normally exactly when the remaining map is empty,
  and it never changes the \<^verbatim>\<open>Args\<close>. When the map is not empty it fails with the error
  that parameters were not consumed, whose message lists the keys of the map sorted, each
  one quoted, joined by a comma and a space.
\<close>

theorem no_further_arguments_iff_empty:
  "(fst (no_further_arguments self) = Inr ()) = (m_args self = [])
   \<and> snd (no_further_arguments self) = self
   \<and> (m_args self \<noteq> [] \<longrightarrow>
        fst (no_further_arguments self)
          = Inl (UnconsumedArgumentsError (sort (map fst (m_args self)))))
   \<and> sorted (sort (map fst (m_args self)))
   \<and> set (sort (map fst (m_args self))) = fst ` set (m_args self)"
  by (simp add: no_further_arguments_def UnconsumedArgumentsError_def MULTIJOB_ERROR_def
      joined_and_quoted_comma_joined sorted_keys_def)

theorem no_further_arguments_iff_empty_witness:
  "m_args \<lparr>m_job_id = 57, m_repetition_id = 3, m_args = [(''z'', ''y''), (''a'', ''b'')]\<rparr> \<noteq> []
   \<and> fst (no_further_arguments
            \<lparr>m_job_id = 57, m_repetition_id = 3, m_args = [(''z'', ''y''), (''a'', ''b'')]\<rparr>)
       = Inl (UnconsumedArgumentsError [''a'', ''z''])
   \<and> fst (no_further_arguments \<lparr>m_job_id = 4, m_repetition_id = 7, m_args = []\<rparr>) = Inr ()"
proof -
  have s: "sort [''z'', ''a''] = [''a'', ''z'']" by code_simp
  show ?thesis
    using no_further_arguments_iff_empty
        [of "\<lparr>m_job_id = 57, m_repetition_id = 3, m_args = [(''z'', ''y''), (''a'', ''b'')]\<rparr>"]
      no_further_arguments_iff_empty [of "\<lparr>m_job_id = 4, m_repetition_id = 7, m_args = []\<rparr>"] s
    by simp
qed

section \<open>Splitting the tokens\<close>

lemma find_char_mem:
  "c \<in> set s \<Longrightarrow> find_char c s = Some (length (takeWhile (\<lambda>x. x \<noteq> c) s))"
  by (induction s) auto

lemma find_char_not_mem: "c \<notin> set s \<Longrightarrow> find_char c s = None"
  by (induction s) auto

lemma split_arg_delimiter: "has_delimiter t \<Longrightarrow> split_arg t = Inr (key_of t, value_of t)"
proof -
  assume "has_delimiter t"
  then have f: "find_char CHR ''='' t = Some (length (key_of t))"
    by (simp add: has_delimiter_def key_of_def find_char_mem)
  have k: "take (length (key_of t)) t = key_of t"
    unfolding key_of_def by (rule takeWhile_eq_take [symmetric])
  have v: "drop (Suc (length (key_of t))) t = value_of t"
    unfolding key_of_def value_of_def by (simp add: dropWhile_eq_drop)
  show ?thesis by (simp add: split_arg_def f k v)
qed

lemma split_arg_malformed: "\<not> has_delimiter t \<Longrightarrow> split_arg t = Inl (MalformedArgumentError t)"
  by (simp add: split_arg_def has_delimiter_def find_char_not_mem MalformedArgumentError_def
      MULTIJOB_ERROR_def)

lemma key_value_join:
  "has_delimiter t \<Longrightarrow> t = key_of t @ CHR ''='' # value_of t \<and> CHR ''='' \<notin> set (key_of t)"
proof -
  assume h: "has_delimiter t"
  have j: "t = takeWhile (\<lambda>c. c \<noteq> CHR ''='') t @ dropWhile (\<lambda>c. c \<noteq> CHR ''='') t"
    by simp
  from h have "dropWhile (\<lambda>c. c \<noteq> CHR ''='') t \<noteq> []"
    by (simp add: has_delimiter_def)
  then obtain d ds where d: "dropWhile (\<lambda>c. c \<noteq> CHR ''='') t = d # ds"
    by (cases "dropWhile (\<lambda>c. c \<noteq> CHR ''='') t") auto
  then have "d = CHR ''=''"
    using hd_dropWhile [of "\<lambda>c. c \<noteq> CHR ''=''" t] by auto
  with d j have "t = key_of t @ CHR ''='' # value_of t"
    by (simp add: key_of_def value_of_def)
  moreover have "CHR ''='' \<notin> set (key_of t)"
    using set_takeWhileD [of "CHR ''=''" "\<lambda>c. c \<noteq> CHR ''=''" t] by (auto simp: key_of_def)
  ultimately show ?thesis by simp
qed

lemma special_loop_ok:
  "list_all has_delimiter (takeWhile (\<lambda>t. t \<noteq> sep) toks) \<Longrightarrow>
   special_loop sep toks m
     = Inr (kv_store m (takeWhile (\<lambda>t. t \<noteq> sep) toks), dropWhile (\<lambda>t. t \<noteq> sep) toks)"
  by (induction toks arbitrary: m) (auto simp: kv_store_def split_arg_delimiter)

lemma special_loop_bad:
  "List.find (\<lambda>t. \<not> has_delimiter t) (takeWhile (\<lambda>t. t \<noteq> sep) toks) = Some bad \<Longrightarrow>
   special_loop sep toks m = Inl (MalformedArgumentError bad)"
  by (induction toks arbitrary: m)
    (auto simp: split_arg_delimiter split_arg_malformed split: if_splits)

lemma normal_loop_ok:
  "list_all has_delimiter toks \<Longrightarrow> normal_loop toks m = Inr (kv_store m toks)"
  by (induction toks arbitrary: m) (auto simp: kv_store_def split_arg_delimiter)

lemma normal_loop_bad:
  "List.find (\<lambda>t. \<not> has_delimiter t) toks = Some bad \<Longrightarrow>
   normal_loop toks m = Inl (MalformedArgumentError bad)"
  by (induction toks arbitrary: m)
    (auto simp: split_arg_delimiter split_arg_malformed split: if_splits)

lemma find_append_cases:
  "List.find P (xs @ ys) = (case List.find P xs of None \<Rightarrow> List.find P ys | Some x \<Rightarrow> Some x)"
  by (induction xs) auto

lemma find_None_list_all: "(List.find (\<lambda>t. \<not> P t) xs = None) = list_all P xs"
  by (induction xs) auto

lemma drop_one_case: "drop 1 xs = (case xs of [] \<Rightarrow> [] | _ # rest \<Rightarrow> rest)"
  by (cases xs) simp_all

lemma normal_region_tl: "normal_region toks = (case dropWhile (\<lambda>t. t \<noteq> ''--'') toks of [] \<Rightarrow> [] | _ # rest \<Rightarrow> rest)"
  unfolding normal_region_def by (rule drop_one_case)

lemma separate_argv_ok:
  assumes "first_malformed toks = None"
  shows "separate_argv toks ''--''
     = Inr (kv_store [] (special_region toks), kv_store [] (normal_region toks))"
proof -
  from assms have s: "list_all has_delimiter (special_region toks)"
    and n: "list_all has_delimiter (normal_region toks)"
    by (auto simp: first_malformed_def find_append_cases find_None_list_all [symmetric]
        split: option.splits)
  have l: "special_loop ''--'' toks []
     = Inr (kv_store [] (special_region toks), dropWhile (\<lambda>t. t \<noteq> ''--'') toks)"
    using s unfolding special_region_def by (rule special_loop_ok)
  show ?thesis
    using n by (simp add: separate_argv_def l normal_region_tl [symmetric] normal_loop_ok)
qed

lemma separate_argv_bad:
  assumes "first_malformed toks = Some bad"
  shows "separate_argv toks ''--'' = Inl (MalformedArgumentError bad)"
proof (cases "List.find (\<lambda>t. \<not> has_delimiter t) (special_region toks)")
  case (Some b)
  with assms have "b = bad"
    by (simp add: first_malformed_def find_append_cases)
  with Some show ?thesis
    by (simp add: separate_argv_def special_region_def special_loop_bad)
next
  case None
  then have s: "list_all has_delimiter (special_region toks)"
    by (simp add: find_None_list_all)
  have l: "special_loop ''--'' toks []
     = Inr (kv_store [] (special_region toks), dropWhile (\<lambda>t. t \<noteq> ''--'') toks)"
    using s unfolding special_region_def by (rule special_loop_ok)
  from None assms have "List.find (\<lambda>t. \<not> has_delimiter t) (normal_region toks) = Some bad"
    by (simp add: first_malformed_def find_append_cases)
  then show ?thesis
    by (simp add: separate_argv_def l normal_region_tl [symmetric] normal_loop_bad)
qed

lemma first_malformed_exists:
  "t \<in> set (special_region toks) \<union> set (normal_region toks) \<Longrightarrow> \<not> has_delimiter t \<Longrightarrow>
   \<exists>bad. first_malformed toks = Some bad"
  by (cases "first_malformed toks") (auto simp: first_malformed_def find_None_iff)

lemma find_Some_member: "List.find P xs = Some x \<Longrightarrow> x \<in> set xs \<and> P x"
  by (induction xs) (auto split: if_splits)

lemma first_malformed_is_malformed:
  "first_malformed toks = Some bad \<Longrightarrow>
   bad \<in> set (special_region toks) \<union> set (normal_region toks) \<and> \<not> has_delimiter bad"
  using find_Some_member [of "\<lambda>t. \<not> has_delimiter t" "special_region toks @ normal_region toks" bad]
  by (simp add: first_malformed_def)

text \<open>
  C5. A token that contains \<^verbatim>\<open>=\<close> is split at its first \<^verbatim>\<open>=\<close>: the key is the part in front of
  it and contains no \<^verbatim>\<open>=\<close>, the value is everything behind it. When every token of the
  special region (the tokens in front of the first \<^verbatim>\<open>--\<close>) and of the normal region (the
  tokens behind it) contains \<^verbatim>\<open>=\<close>, the two maps hold the keys and values of the tokens of
  their region, a later token replacing the value of an earlier one with the same key.
  When some token of either region contains no \<^verbatim>\<open>=\<close>, \<^verbatim>\<open>parse_commandline\<close> fails with the
  error that the first such token cannot be split.
\<close>

theorem tokens_split_at_first_delimiter:
  "(has_delimiter t \<longrightarrow>
      split_arg t = Inr (key_of t, value_of t)
      \<and> t = key_of t @ CHR ''='' # value_of t \<and> CHR ''='' \<notin> set (key_of t))
   \<and> (first_malformed toks = None \<longrightarrow>
        separate_argv toks ''--''
          = Inr (kv_store [] (special_region toks), kv_store [] (normal_region toks)))
   \<and> ((\<exists>u \<in> set (special_region toks) \<union> set (normal_region toks). \<not> has_delimiter u) \<longrightarrow>
        (\<exists>bad \<in> set (special_region toks) \<union> set (normal_region toks).
           \<not> has_delimiter bad \<and> first_malformed toks = Some bad
           \<and> parse_commandline (prog # toks) config = Inl (MalformedArgumentError bad)))"
proof (intro conjI impI)
  assume "has_delimiter t"
  then show "split_arg t = Inr (key_of t, value_of t)" by (rule split_arg_delimiter)
next
  assume "has_delimiter t"
  then show "t = key_of t @ CHR ''='' # value_of t" by (simp add: key_value_join)
next
  assume "has_delimiter t"
  then show "CHR ''='' \<notin> set (key_of t)" by (simp add: key_value_join)
next
  assume "first_malformed toks = None"
  then show "separate_argv toks ''--''
          = Inr (kv_store [] (special_region toks), kv_store [] (normal_region toks))"
    by (rule separate_argv_ok)
next
  assume "\<exists>u \<in> set (special_region toks) \<union> set (normal_region toks). \<not> has_delimiter u"
  then obtain bad where b: "first_malformed toks = Some bad"
    using first_malformed_exists by blast
  then have m: "bad \<in> set (special_region toks) \<union> set (normal_region toks) \<and> \<not> has_delimiter bad"
    by (rule first_malformed_is_malformed)
  have "parse_commandline (prog # toks) config = Inl (MalformedArgumentError bad)"
    by (simp add: parse_commandline_def separate_argv_bad [OF b])
  with b m show "\<exists>bad \<in> set (special_region toks) \<union> set (normal_region toks).
           \<not> has_delimiter bad \<and> first_malformed toks = Some bad
           \<and> parse_commandline (prog # toks) config = Inl (MalformedArgumentError bad)"
    by blast
qed

theorem tokens_split_at_first_delimiter_witness:
  "has_delimiter ''a=b=c''
   \<and> split_arg ''a=b=c'' = Inr (''a'', ''b=c'')
   \<and> first_malformed [''--id=0'', ''--rep=0'', ''--'', ''x=y''] = None
   \<and> separate_argv [''--id=0'', ''--rep=0'', ''--'', ''x=y''] ''--''
       = Inr ([(''--id'', ''0''), (''--rep'', ''0'')], [(''x'', ''y'')])
   \<and> (\<exists>u \<in> set (special_region [''--id=0'', ''--rep=0'', ''--'', ''x''])
            \<union> set (normal_region [''--id=0'', ''--rep=0'', ''--'', ''x'']). \<not> has_delimiter u)
   \<and> parse_commandline [''self'', ''--id=0'', ''--rep=0'', ''--'', ''x''] default_config
       = Inl (MalformedArgumentError ''x'')"
proof -
  have d: "has_delimiter ''a=b=c''"
    by (simp add: has_delimiter_def)
  have k: "key_of ''a=b=c'' = ''a''" and v: "value_of ''a=b=c'' = ''b=c''"
    by (simp_all add: key_of_def value_of_def)
  have f: "first_malformed [''--id=0'', ''--rep=0'', ''--'', ''x=y''] = None"
    by code_simp
  have kv: "kv_store [] (special_region [''--id=0'', ''--rep=0'', ''--'', ''x=y''])
              = [(''--id'', ''0''), (''--rep'', ''0'')]
            \<and> kv_store [] (normal_region [''--id=0'', ''--rep=0'', ''--'', ''x=y'']) = [(''x'', ''y'')]"
    by code_simp
  have g: "first_malformed [''--id=0'', ''--rep=0'', ''--'', ''x''] = Some ''x''"
    by code_simp
  have u: "\<exists>u \<in> set (special_region [''--id=0'', ''--rep=0'', ''--'', ''x''])
            \<union> set (normal_region [''--id=0'', ''--rep=0'', ''--'', ''x'']). \<not> has_delimiter u"
    using first_malformed_is_malformed [OF g] by blast
  note t1 = tokens_split_at_first_delimiter
    [of "''a=b=c''" "[''--id=0'', ''--rep=0'', ''--'', ''x=y'']" "''self''" default_config]
  note t2 = tokens_split_at_first_delimiter
    [of "''a=b=c''" "[''--id=0'', ''--rep=0'', ''--'', ''x'']" "''self''" default_config]
  from t1 d k v have a: "split_arg ''a=b=c'' = Inr (''a'', ''b=c'')"
    by simp
  from t1 f kv have b: "separate_argv [''--id=0'', ''--rep=0'', ''--'', ''x=y''] ''--''
       = Inr ([(''--id'', ''0''), (''--rep'', ''0'')], [(''x'', ''y'')])"
    by simp
  from t2 u g have c: "parse_commandline [''self'', ''--id=0'', ''--rep=0'', ''--'', ''x''] default_config
       = Inl (MalformedArgumentError ''x'')"
    by auto
  from d a f b u c show ?thesis by blast
qed

section \<open>A missing separator\<close>

lemma special_loop_without_sep:
  "sep \<notin> set toks \<Longrightarrow>
   special_loop sep (toks @ [sep]) m
     = (case special_loop sep toks m of Inl e \<Rightarrow> Inl e | Inr (m', rest) \<Rightarrow> Inr (m', [sep]))
   \<and> (\<forall>m' rest. special_loop sep toks m = Inr (m', rest) \<longrightarrow> rest = [])"
  by (induction toks arbitrary: m) (auto split: sum.splits prod.splits)

lemma separate_argv_without_sep:
  assumes "sep \<notin> set toks"
  shows "separate_argv (toks @ [sep]) sep = separate_argv toks sep"
proof (cases "special_loop sep toks []")
  case (Inl e)
  with special_loop_without_sep [OF assms, of "[]"] show ?thesis
    by (simp add: separate_argv_def)
next
  case (Inr r)
  obtain m' rest where r: "r = (m', rest)" by (cases r)
  with Inr special_loop_without_sep [OF assms, of "[]"]
  have "rest = []" and "special_loop sep (toks @ [sep]) [] = Inr (m', [sep])"
    by auto
  with Inr r show ?thesis
    by (simp add: separate_argv_def)
qed

lemma regions_without_sep:
  assumes "''--'' \<notin> set toks"
  shows "special_region toks = toks \<and> normal_region toks = []"
proof -
  from assms have a: "\<forall>t \<in> set toks. t \<noteq> ''--''"
    by blast
  then have t: "takeWhile (\<lambda>t. t \<noteq> ''--'') toks = toks"
    by simp
  from a have d: "dropWhile (\<lambda>t. t \<noteq> ''--'') toks = []"
    by simp
  show ?thesis
    unfolding special_region_def normal_region_def t d by simp
qed

text \<open>
  C10. A token sequence without a bare \<^verbatim>\<open>--\<close> is not an error in itself: all of its tokens
  form the special region, the normal map is empty, and \<^verbatim>\<open>parse_commandline\<close> returns what
  it returns for the same tokens followed by \<^verbatim>\<open>--\<close>.
\<close>

theorem missing_separator_not_an_error:
  "''--'' \<notin> set toks \<Longrightarrow>
   special_region toks = toks \<and> normal_region toks = []
   \<and> parse_commandline (prog # toks) config = parse_commandline (prog # toks @ [''--'']) config
   \<and> (\<forall>special normal. separate_argv toks ''--'' = Inr (special, normal) \<longrightarrow>
         special = kv_store [] toks \<and> normal = [])
   \<and> (list_all has_delimiter toks \<longrightarrow> separate_argv toks ''--'' = Inr (kv_store [] toks, []))"
proof -
  assume a: "''--'' \<notin> set toks"
  then have r: "special_region toks = toks" "normal_region toks = []"
    by (simp_all add: regions_without_sep)
  have p: "parse_commandline (prog # toks) config = parse_commandline (prog # toks @ [''--'']) config"
    using separate_argv_without_sep [OF a] by (simp add: parse_commandline_def)
  have ok: "list_all has_delimiter toks \<Longrightarrow> separate_argv toks ''--'' = Inr (kv_store [] toks, [])"
  proof -
    assume "list_all has_delimiter toks"
    then have "first_malformed toks = None"
      by (simp add: first_malformed_def r find_None_list_all)
    from separate_argv_ok [OF this] show ?thesis
      by (simp add: r kv_store_def)
  qed
  have s: "\<forall>special normal. separate_argv toks ''--'' = Inr (special, normal) \<longrightarrow>
         special = kv_store [] toks \<and> normal = []"
  proof (intro allI impI)
    fix special normal
    assume e: "separate_argv toks ''--'' = Inr (special, normal)"
    have "list_all has_delimiter toks"
    proof (cases "first_malformed toks")
      case None
      then show ?thesis by (simp add: first_malformed_def r find_None_list_all)
    next
      case (Some bad)
      from separate_argv_bad [OF this] e show ?thesis by simp
    qed
    from ok [OF this] e show "special = kv_store [] toks \<and> normal = []" by simp
  qed
  from r p s ok show ?thesis by blast
qed

theorem missing_separator_not_an_error_witness:
  "''--'' \<notin> set [''--id=1'', ''--rep=0'']
   \<and> parse_commandline [''self'', ''--id=1'', ''--rep=0''] default_config
       = Inr \<lparr>m_job_id = 1, m_repetition_id = 0, m_args = []\<rparr>
   \<and> list_all has_delimiter [''--id=1'', ''--rep=0'']
   \<and> separate_argv [''--id=1'', ''--rep=0''] ''--'' = Inr ([(''--id'', ''1''), (''--rep'', ''0'')], [])"
proof -
  have h: "''--'' \<notin> set [''--id=1'', ''--rep=0'']"
    by simp
  have d: "list_all has_delimiter [''--id=1'', ''--rep=0'']"
    by (simp add: has_delimiter_def)
  have k: "kv_store [] [''--id=1'', ''--rep=0''] = [(''--id'', ''1''), (''--rep'', ''0'')]"
    by code_simp
  have p: "parse_commandline ([''self'', ''--id=1'', ''--rep=0''] @ [''--'']) default_config
       = Inr \<lparr>m_job_id = 1, m_repetition_id = 0, m_args = []\<rparr>"
    by code_simp
  note t = missing_separator_not_an_error [OF h, of "''self''" default_config]
  note t3 = t [THEN conjunct2, THEN conjunct2, THEN conjunct1]
  note t5 = t [THEN conjunct2, THEN conjunct2, THEN conjunct2, THEN conjunct2]
  from t3 p have a: "parse_commandline [''self'', ''--id=1'', ''--rep=0''] default_config
       = Inr \<lparr>m_job_id = 1, m_repetition_id = 0, m_args = []\<rparr>"
    by simp
  from t5 d k have b: "separate_argv [''--id=1'', ''--rep=0''] ''--''
       = Inr ([(''--id'', ''1''), (''--rep'', ''0'')], [])"
    by simp
  from h a d b show ?thesis by blast
qed

section \<open>Missing and unknown special arguments\<close>

lemma kv_store_keys: "fst ` set (kv_store m ts) = fst ` set m \<union> key_of ` set ts"
  unfolding kv_store_def by (induction ts arbitrary: m) (auto simp: dom_update)

lemma kv_store_distinct: "distinct (map fst m) \<Longrightarrow> distinct (map fst (kv_store m ts))"
  unfolding kv_store_def by (induction ts arbitrary: m) (auto simp: distinct_update)

lemma sorted_keys_distinct:
  "distinct (map fst al) \<Longrightarrow> sorted_keys al = sorted_list_of_set (fst ` set al)"
proof -
  assume "distinct (map fst al)"
  then have "sort (remdups (map fst al)) = sort (map fst al)"
    by (simp add: distinct_remdups_id)
  then show ?thesis
    using sorted_list_of_set_sort_remdups [of "map fst al"] by (simp add: sorted_keys_def)
qed

lemma delete_twice_keys:
  "fst ` set (AList.delete b (AList.delete a al)) = fst ` set al - {a, b}"
  by (auto simp: AList.delete_eq image_iff)

lemma parse_commandline_cases:
  assumes "separate_argv toks ''--'' = Inr (sp, nm)"
  shows "parse_commandline (prog # toks) config =
     (case map_of sp (job_id_key config) of
        None \<Rightarrow> Inl (MissingSpecialArgumentError ''job_id'' (job_id_key config))
      | Some js \<Rightarrow>
          (case map_of (AList.delete (job_id_key config) sp) (repetition_id_key config) of
             None \<Rightarrow> Inl (MissingSpecialArgumentError ''repetition_id'' (repetition_id_key config))
           | Some rs \<Rightarrow>
               if AList.delete (repetition_id_key config) (AList.delete (job_id_key config) sp) \<noteq> []
               then Inl (UnknownSpecialArgumentError
                      (sorted_keys (AList.delete (repetition_id_key config)
                                      (AList.delete (job_id_key config) sp))))
               else (case convert_str_to_ul ''job_id'' js of
                       Inl e \<Rightarrow> Inl e
                     | Inr j \<Rightarrow>
                         (case convert_str_to_ul ''repetition_id'' rs of
                            Inl e \<Rightarrow> Inl e
                          | Inr r \<Rightarrow> Inr \<lparr>m_job_id = ucast j, m_repetition_id = ucast r,
                                          m_args = nm\<rparr>))))"
  using assms
  by (simp add: parse_commandline_def MissingSpecialArgumentError_def
      UnknownSpecialArgumentError_def MULTIJOB_ERROR_def joined_and_quoted_comma_joined
      split: option.splits)

text \<open>
  C4, as the code has it. \<^verbatim>\<open>separate_argv\<close> splits every token of both regions before
  \<^verbatim>\<open>parse_commandline\<close> looks for the special keys, so a token without \<^verbatim>\<open>=\<close> anywhere
  wins over a missing or an unknown special key. When every token of both regions
  contains \<^verbatim>\<open>=\<close>: \<^verbatim>\<open>parse_commandline\<close> fails with the error that the job-id argument is
  required if the job-id key is not a key of the special region; it fails with the error
  that the repetition-id argument is required if the job-id key is a key of the special
  region and the repetition-id key is not; and, for two different configured keys that
  are both keys of the special region, it fails with the error for unknown special
  arguments if the special region has any other key, and the message lists these other
  keys sorted, each one quoted, joined by a comma and a space.
\<close>

theorem special_region_errors:
  "first_malformed toks = None \<Longrightarrow>
   (job_id_key config \<notin> key_of ` set (special_region toks) \<longrightarrow>
      parse_commandline (prog # toks) config
        = Inl (MissingSpecialArgumentError ''job_id'' (job_id_key config)))
   \<and> (job_id_key config \<in> key_of ` set (special_region toks)
        \<and> repetition_id_key config \<notin> key_of ` set (special_region toks) \<longrightarrow>
      parse_commandline (prog # toks) config
        = Inl (MissingSpecialArgumentError ''repetition_id'' (repetition_id_key config)))
   \<and> (job_id_key config \<in> key_of ` set (special_region toks)
        \<and> repetition_id_key config \<in> key_of ` set (special_region toks)
        \<and> job_id_key config \<noteq> repetition_id_key config
        \<and> key_of ` set (special_region toks) - {job_id_key config, repetition_id_key config} \<noteq> {}
        \<longrightarrow>
      parse_commandline (prog # toks) config
        = Inl (UnknownSpecialArgumentError
                 (sorted_list_of_set
                    (key_of ` set (special_region toks)
                       - {job_id_key config, repetition_id_key config}))))"
proof -
  assume wf: "first_malformed toks = None"
  define sp where "sp = kv_store [] (special_region toks)"
  define jk where "jk = job_id_key config"
  define rk where "rk = repetition_id_key config"
  define K where "K = key_of ` set (special_region toks)"
  have keys: "fst ` set sp = K"
    by (simp add: sp_def K_def kv_store_keys)
  have dist: "distinct (map fst sp)"
    by (simp add: sp_def kv_store_distinct)
  from separate_argv_ok [OF wf]
  have sep: "separate_argv toks ''--'' = Inr (sp, kv_store [] (normal_region toks))"
    by (simp add: sp_def)
  note pc = parse_commandline_cases [OF sep, of prog config, folded jk_def rk_def]
  have none_iff: "\<And>k al. (map_of al k = None) = (k \<notin> fst ` set al)"
    by (simp add: map_of_eq_None_iff)
  have c1: "jk \<notin> K \<Longrightarrow> parse_commandline (prog # toks) config
        = Inl (MissingSpecialArgumentError ''job_id'' jk)"
  proof -
    assume "jk \<notin> K"
    then have "map_of sp jk = None" by (simp add: none_iff keys)
    then show ?thesis by (simp add: pc)
  qed
  have c2: "jk \<in> K \<Longrightarrow> rk \<notin> K \<Longrightarrow> parse_commandline (prog # toks) config
        = Inl (MissingSpecialArgumentError ''repetition_id'' rk)"
  proof -
    assume "jk \<in> K" and "rk \<notin> K"
    then obtain js where "map_of sp jk = Some js"
      using keys none_iff [of sp jk] by (cases "map_of sp jk") auto
    moreover from \<open>rk \<notin> K\<close> have "map_of (AList.delete jk sp) rk = None"
      by (simp add: none_iff keys [symmetric] AList.delete_eq image_iff)
    ultimately show ?thesis by (simp add: pc)
  qed
  have c3: "jk \<in> K \<Longrightarrow> rk \<in> K \<Longrightarrow> jk \<noteq> rk \<Longrightarrow> K - {jk, rk} \<noteq> {} \<Longrightarrow>
      parse_commandline (prog # toks) config
        = Inl (UnknownSpecialArgumentError (sorted_list_of_set (K - {jk, rk})))"
  proof -
    assume a: "jk \<in> K" "rk \<in> K" "jk \<noteq> rk" "K - {jk, rk} \<noteq> {}"
    then obtain js where js: "map_of sp jk = Some js"
      using keys none_iff [of sp jk] by (cases "map_of sp jk") auto
    from a have "rk \<in> fst ` set (AList.delete jk sp)"
      using keys by (auto simp: AList.delete_eq image_iff)
    then obtain rs where rs: "map_of (AList.delete jk sp) rk = Some rs"
      using none_iff [of "AList.delete jk sp" rk] by (cases "map_of (AList.delete jk sp) rk") auto
    have k2: "fst ` set (AList.delete rk (AList.delete jk sp)) = K - {jk, rk}"
      by (simp add: delete_twice_keys keys)
    with a have ne: "AList.delete rk (AList.delete jk sp) \<noteq> []"
      by auto
    have "distinct (map fst (AList.delete rk (AList.delete jk sp)))"
      using dist by (simp add: distinct_delete)
    then have "sorted_keys (AList.delete rk (AList.delete jk sp)) = sorted_list_of_set (K - {jk, rk})"
      by (simp add: sorted_keys_distinct k2)
    with js rs ne show ?thesis by (simp add: pc)
  qed
  from c1 c2 c3 show ?thesis
    unfolding jk_def rk_def K_def by blast
qed

theorem special_region_errors_witness:
  "first_malformed [''--rep=0'', ''--''] = None
   \<and> job_id_key default_config \<notin> key_of ` set (special_region [''--rep=0'', ''--''])
   \<and> parse_commandline [''self'', ''--rep=0'', ''--''] default_config
       = Inl (MissingSpecialArgumentError ''job_id'' ''--id'')
   \<and> first_malformed [''--id=0'', ''--''] = None
   \<and> job_id_key default_config \<in> key_of ` set (special_region [''--id=0'', ''--''])
   \<and> repetition_id_key default_config \<notin> key_of ` set (special_region [''--id=0'', ''--''])
   \<and> parse_commandline [''self'', ''--id=0'', ''--''] default_config
       = Inl (MissingSpecialArgumentError ''repetition_id'' ''--rep'')
   \<and> first_malformed [''--id=0'', ''--rep=0'', ''--zz=0'', ''--b=1'', ''--''] = None
   \<and> job_id_key default_config
       \<in> key_of ` set (special_region [''--id=0'', ''--rep=0'', ''--zz=0'', ''--b=1'', ''--''])
   \<and> repetition_id_key default_config
       \<in> key_of ` set (special_region [''--id=0'', ''--rep=0'', ''--zz=0'', ''--b=1'', ''--''])
   \<and> job_id_key default_config \<noteq> repetition_id_key default_config
   \<and> key_of ` set (special_region [''--id=0'', ''--rep=0'', ''--zz=0'', ''--b=1'', ''--''])
         - {job_id_key default_config, repetition_id_key default_config} \<noteq> {}
   \<and> parse_commandline [''self'', ''--id=0'', ''--rep=0'', ''--zz=0'', ''--b=1'', ''--'']
         default_config
       = Inl (UnknownSpecialArgumentError [''--b'', ''--zz''])"
proof -
  let ?t1 = "[''--rep=0'', ''--'']"
  let ?t2 = "[''--id=0'', ''--'']"
  let ?t3 = "[''--id=0'', ''--rep=0'', ''--zz=0'', ''--b=1'', ''--'']"
  have w1: "first_malformed ?t1 = None" by code_simp
  have w2: "first_malformed ?t2 = None" by code_simp
  have w3: "first_malformed ?t3 = None" by code_simp
  have k1: "job_id_key default_config \<notin> key_of ` set (special_region ?t1)" by code_simp
  have k2: "job_id_key default_config \<in> key_of ` set (special_region ?t2)" by code_simp
  have k2': "repetition_id_key default_config \<notin> key_of ` set (special_region ?t2)" by code_simp
  have k3: "job_id_key default_config \<in> key_of ` set (special_region ?t3)" by code_simp
  have k3': "repetition_id_key default_config \<in> key_of ` set (special_region ?t3)" by code_simp
  have ne: "job_id_key default_config \<noteq> repetition_id_key default_config" by code_simp
  have k3'': "key_of ` set (special_region ?t3)
         - {job_id_key default_config, repetition_id_key default_config} \<noteq> {}" by code_simp
  have srt: "sorted_list_of_set (key_of ` set (special_region ?t3)
         - {job_id_key default_config, repetition_id_key default_config}) = [''--b'', ''--zz'']"
    by code_simp
  have jk: "job_id_key default_config = ''--id''" and rk: "repetition_id_key default_config = ''--rep''"
    by (simp_all add: default_config_def)
  note t1 = special_region_errors [OF w1, of default_config "''self''", THEN conjunct1]
  note t2 = special_region_errors [OF w2, of default_config "''self''", THEN conjunct2, THEN conjunct1]
  note t3 = special_region_errors [OF w3, of default_config "''self''", THEN conjunct2, THEN conjunct2]
  from t1 k1 jk have r1: "parse_commandline [''self'', ''--rep=0'', ''--''] default_config
       = Inl (MissingSpecialArgumentError ''job_id'' ''--id'')"
    by simp
  from t2 k2 k2' rk have r2: "parse_commandline [''self'', ''--id=0'', ''--''] default_config
       = Inl (MissingSpecialArgumentError ''repetition_id'' ''--rep'')"
    by simp
  from t3 k3 k3' ne k3'' srt
  have r3: "parse_commandline [''self'', ''--id=0'', ''--rep=0'', ''--zz=0'', ''--b=1'', ''--'']
         default_config = Inl (UnknownSpecialArgumentError [''--b'', ''--zz''])"
    by simp
  from w1 k1 r1 w2 k2 k2' r2 w3 k3 k3' ne k3'' r3 show ?thesis by blast
qed

text \<open>
  The claim C4 as stated, for every token sequence, does not hold: in
  \<^verbatim>\<open>self --rep=0 -- x\<close> the job-id key is absent from the special region, and the call
  fails because \<^verbatim>\<open>x\<close> cannot be split, not because a special argument is missing.
\<close>

theorem special_region_errors_counterexample:
  "job_id_key default_config \<notin> key_of ` set (special_region [''--rep=0'', ''--'', ''x''])
   \<and> parse_commandline [''self'', ''--rep=0'', ''--'', ''x''] default_config
       = Inl (MalformedArgumentError ''x'')
   \<and> MalformedArgumentError ''x''
       \<noteq> MissingSpecialArgumentError ''job_id'' (job_id_key default_config)
   \<and> MalformedArgumentError ''x''
       \<noteq> MissingSpecialArgumentError ''repetition_id'' (repetition_id_key default_config)"
proof -
  have a: "job_id_key default_config \<notin> key_of ` set (special_region [''--rep=0'', ''--'', ''x''])"
    by code_simp
  have b: "parse_commandline [''self'', ''--rep=0'', ''--'', ''x''] default_config
       = Inl (MalformedArgumentError ''x'')"
    by code_simp
  have c: "MalformedArgumentError ''x''
       \<noteq> MissingSpecialArgumentError ''job_id'' (job_id_key default_config)"
    by (simp add: MalformedArgumentError_def MissingSpecialArgumentError_def)
  have d: "MalformedArgumentError ''x''
       \<noteq> MissingSpecialArgumentError ''repetition_id'' (repetition_id_key default_config)"
    by (simp add: MalformedArgumentError_def MissingSpecialArgumentError_def)
  from a b c d show ?thesis by blast
qed

section \<open>The two IDs\<close>

lemma digit_below_ten: "is_digit_in b c \<Longrightarrow> b \<le> 10 \<Longrightarrow> is_decimal_digit c"
  by (auto simp: is_digit_in_def digit_value_def Let_def is_decimal_digit_def
      split: if_splits option.splits)

lemma decimal_digit_in_ten: "is_decimal_digit c \<Longrightarrow> is_digit_in 10 c"
  by (auto simp: is_digit_in_def digit_value_def Let_def is_decimal_digit_def)

lemma decimal_digit_of: "is_decimal_digit c \<Longrightarrow> digit_of c = of_char c - 48"
  by (auto simp: digit_of_def digit_value_def Let_def is_decimal_digit_def)

lemma decimal_digit_plain:
  "is_decimal_digit c \<Longrightarrow> \<not> isspace c \<and> c \<noteq> CHR ''-'' \<and> c \<noteq> CHR ''+'' \<and> c \<noteq> CHR ''x'' \<and> c \<noteq> CHR ''X''"
  by (auto simp: is_decimal_digit_def isspace_def)

lemma scan_plain:
  assumes "\<not> lenient_start s"
  shows "strto_scan s 0 =
     (let b = (if has_zero_prefix s then 8 else 10); ds = takeWhile (is_digit_in b) s
      in if ds = [] then None
         else Some (False, foldl (\<lambda>acc c. acc * int b + int (digit_of c)) 0 ds, length ds))"
proof (cases s)
  case Nil
  then show ?thesis
    by (simp add: strto_scan_def is_sign_def has_hex_prefix_def has_zero_prefix_def)
next
  case (Cons c cs)
  with assms have sp: "\<not> isspace c" and sg: "\<not> is_sign (c # cs)" and hx: "\<not> has_hex_prefix (c # cs)"
    by (simp_all add: lenient_start_def)
  from sg have mn: "\<not> is_minus (c # cs)"
    by (auto simp: is_sign_def is_minus_def)
  show ?thesis
    unfolding Cons strto_scan_def using sp sg hx mn by (simp add: Let_def)
qed

lemma convert_ul_error_kind:
  "convert_str_to_ul name s = Inl e \<Longrightarrow> is_InvalidIdError name s e"
  by (auto simp: convert_str_to_ul_def convert_def stoul_def is_InvalidIdError_def
      split: option.splits sum.splits std_exception.splits prod.splits if_splits)

lemma takeWhile_all_length: "length (takeWhile P xs) = length xs \<Longrightarrow> list_all P xs"
  by (induction xs) (auto split: if_splits dest: length_takeWhile_le [THEN le_trans])

lemma convert_ul_rejects:
  assumes nd: "\<not> is_decimal s" and nl: "\<not> lenient_start s"
  shows "\<exists>e. convert_str_to_ul name s = Inl e"
proof -
  define b :: nat where "b = (if has_zero_prefix s then 8 else 10)"
  define ds where "ds = takeWhile (is_digit_in b) s"
  have b10: "b \<le> 10" by (simp add: b_def)
  have sc: "strto_scan s 0 =
     (if ds = [] then None
      else Some (False, foldl (\<lambda>acc c. acc * int b + int (digit_of c)) 0 ds, length ds))"
    using scan_plain [OF nl] by (simp add: Let_def b_def ds_def)
  have len: "ds \<noteq> [] \<Longrightarrow> length ds \<noteq> length s"
  proof
    assume ne: "ds \<noteq> []" and eq: "length ds = length s"
    then have "list_all (is_digit_in b) s"
      unfolding ds_def by (simp add: takeWhile_all_length)
    then have "list_all is_decimal_digit s"
      using b10 by (auto simp: list_all_iff intro: digit_below_ten)
    moreover from ne have "s \<noteq> []" by (auto simp: ds_def)
    ultimately show False using nd by (simp add: is_decimal_def)
  qed
  show ?thesis
  proof (cases "ds = []")
    case True
    then show ?thesis
      by (simp add: convert_str_to_ul_def convert_def stoul_def sc)
  next
    case False
    with len have "length ds \<noteq> length s" by simp
    with False show ?thesis
      by (simp add: convert_str_to_ul_def convert_def stoul_def sc)
  qed
qed

lemma decimal_fold:
  "list_all is_decimal_digit s \<Longrightarrow>
   foldl (\<lambda>acc c. acc * int 10 + int (digit_of c)) (int a) s
     = int (foldl (\<lambda>acc c. 10 * acc + ((of_char c :: nat) - 48)) a s)"
proof (induction s arbitrary: a)
  case Nil
  then show ?case by simp
next
  case (Cons c cs)
  then have d: "digit_of c = of_char c - 48" and r: "list_all is_decimal_digit cs"
    by (simp_all add: decimal_digit_of)
  have "int a * int 10 + int (digit_of c) = int (10 * a + ((of_char c :: nat) - 48))"
    by (simp add: d)
  with Cons.IH [OF r, of "10 * a + ((of_char c :: nat) - 48)"] show ?case
    by (simp add: mult.commute)
qed

lemma canonical_not_lenient: "canonical_decimal s \<Longrightarrow> \<not> lenient_start s"
proof -
  assume c: "canonical_decimal s"
  then obtain x xs where s: "s = x # xs" and dx: "is_decimal_digit x" and dxs: "list_all is_decimal_digit xs"
    by (cases s) (auto simp: canonical_decimal_def is_decimal_def)
  note px = decimal_digit_plain [OF dx]
  have "\<not> has_hex_prefix s"
  proof (cases xs)
    case Nil
    then show ?thesis by (simp add: s has_hex_prefix_def)
  next
    case (Cons y ys)
    with dxs have "is_decimal_digit y" by simp
    from decimal_digit_plain [OF this] show ?thesis
      by (cases ys) (simp_all add: s Cons has_hex_prefix_def)
  qed
  with px show ?thesis
    by (simp add: lenient_start_def s is_sign_def)
qed

lemma scan_canonical:
  assumes c: "canonical_decimal s"
  shows "strto_scan s 0 = Some (False, int (decimal_value s), length s)"
proof -
  from c have d: "list_all is_decimal_digit s" and ne: "s \<noteq> []"
    by (simp_all add: canonical_decimal_def is_decimal_def)
  note sc = scan_plain [OF canonical_not_lenient [OF c]]
  show ?thesis
  proof (cases "s = ''0''")
    case True
    have "strto_scan ''0'' 0 = Some (False, 0, 1)"
      by code_simp
    then show ?thesis
      by (simp add: True decimal_value_def)
  next
    case False
    with c have z: "\<not> has_zero_prefix s"
      by (simp add: canonical_decimal_def)
    from d have t: "takeWhile (is_digit_in 10) s = s"
      by (auto simp: list_all_iff intro: decimal_digit_in_ten)
    have f: "foldl (\<lambda>acc c. acc * int 10 + int (digit_of c)) 0 s = int (decimal_value s)"
      using decimal_fold [OF d, of 0] by (simp add: decimal_value_def)
    show ?thesis
      using sc z ne f by (simp add: Let_def t)
  qed
qed

lemma convert_ul_accepts:
  assumes c: "canonical_decimal s" and r: "decimal_value s < 2 ^ 64"
  shows "convert_str_to_ul name s = Inr (word_of_nat (decimal_value s))"
proof -
  from r have "int (decimal_value s) \<le> ULONG_MAX"
    by (simp add: ULONG_MAX_def)
  then show ?thesis
    by (simp add: convert_str_to_ul_def convert_def stoul_def scan_canonical [OF c])
qed

lemma ucast_small: "n < 2 ^ 32 \<Longrightarrow> (ucast (word_of_nat n :: 64 word) :: 32 word) = word_of_nat n"
proof -
  assume "n < 2 ^ 32"
  then have "unat (word_of_nat n :: 64 word) = n"
    by (simp add: unat_of_nat)
  then have "(ucast (word_of_nat n :: 64 word) :: 32 word) = word_of_nat n"
    by (metis of_nat_unat)
  then show ?thesis .
qed


lemma keys_empty_Nil: "fst ` set al = {} \<Longrightarrow> al = []"
  by simp

text \<open>
  Where the code and the specification agree on the IDs. Let every token of both regions
  contain \<^verbatim>\<open>=\<close>, let the two configured keys be different, and let the special region
  hold exactly these two keys, with the values \<open>js\<close> and \<open>rs\<close>. A string that is not a
  non-empty string of decimal digits, and that does not begin with white space, a sign
  or a hexadecimal prefix, makes \<^verbatim>\<open>parse_commandline\<close> fail with the error of an invalid
  ID. Two decimal numerals without a superfluous leading zero and below \<open>2 ^ 32\<close> are
  returned as \<^verbatim>\<open>job_id\<close> and \<^verbatim>\<open>repetition_id\<close>.
\<close>

lemma id_strings_plain:
  "first_malformed toks = None \<Longrightarrow>
   map_of (kv_store [] (special_region toks)) (job_id_key config) = Some js \<Longrightarrow>
   map_of (kv_store [] (special_region toks)) (repetition_id_key config) = Some rs \<Longrightarrow>
   job_id_key config \<noteq> repetition_id_key config \<Longrightarrow>
   key_of ` set (special_region toks) \<subseteq> {job_id_key config, repetition_id_key config} \<Longrightarrow>
   ((\<not> is_decimal js \<and> \<not> lenient_start js) \<or> (\<not> is_decimal rs \<and> \<not> lenient_start rs) \<longrightarrow>
      (\<exists>e. parse_commandline (prog # toks) config = Inl e
           \<and> (is_InvalidIdError ''job_id'' js e \<or> is_InvalidIdError ''repetition_id'' rs e)))
   \<and> (canonical_decimal js \<and> canonical_decimal rs
        \<and> decimal_value js < 2 ^ 32 \<and> decimal_value rs < 2 ^ 32 \<longrightarrow>
      parse_commandline (prog # toks) config
        = Inr \<lparr>m_job_id = word_of_nat (decimal_value js),
               m_repetition_id = word_of_nat (decimal_value rs),
               m_args = kv_store [] (normal_region toks)\<rparr>
      \<and> unat (word_of_nat (decimal_value js) :: 32 word) = decimal_value js
      \<and> unat (word_of_nat (decimal_value rs) :: 32 word) = decimal_value rs)"
proof -
  assume wf: "first_malformed toks = None"
    and j: "map_of (kv_store [] (special_region toks)) (job_id_key config) = Some js"
    and r: "map_of (kv_store [] (special_region toks)) (repetition_id_key config) = Some rs"
    and ne: "job_id_key config \<noteq> repetition_id_key config"
    and sub: "key_of ` set (special_region toks) \<subseteq> {job_id_key config, repetition_id_key config}"
  define sp where "sp = kv_store [] (special_region toks)"
  define nm where "nm = kv_store [] (normal_region toks)"
  define jk where "jk = job_id_key config"
  define rk where "rk = repetition_id_key config"
  have sep: "separate_argv toks ''--'' = Inr (sp, nm)"
    using separate_argv_ok [OF wf] by (simp add: sp_def nm_def)
  have j': "map_of sp jk = Some js"
    using j by (simp add: sp_def jk_def)
  have r': "map_of (AList.delete jk sp) rk = Some rs"
    using r ne by (simp add: sp_def jk_def rk_def)
  have "fst ` set (AList.delete rk (AList.delete jk sp)) = {}"
    using sub by (auto simp: delete_twice_keys sp_def kv_store_keys jk_def rk_def)
  then have e: "AList.delete rk (AList.delete jk sp) = []"
    by (rule keys_empty_Nil)
  have pc: "parse_commandline (prog # toks) config =
     (case convert_str_to_ul ''job_id'' js of
        Inl e \<Rightarrow> Inl e
      | Inr j \<Rightarrow>
          (case convert_str_to_ul ''repetition_id'' rs of
             Inl e \<Rightarrow> Inl e
           | Inr r \<Rightarrow> Inr \<lparr>m_job_id = ucast j, m_repetition_id = ucast r, m_args = nm\<rparr>))"
    using parse_commandline_cases [OF sep, of prog config, folded jk_def rk_def]
    by (simp add: j' r' e)
  have bad: "(\<not> is_decimal js \<and> \<not> lenient_start js) \<or> (\<not> is_decimal rs \<and> \<not> lenient_start rs) \<Longrightarrow>
      \<exists>e. parse_commandline (prog # toks) config = Inl e
           \<and> (is_InvalidIdError ''job_id'' js e \<or> is_InvalidIdError ''repetition_id'' rs e)"
  proof (cases "convert_str_to_ul ''job_id'' js")
    case (Inl e)
    then show ?thesis
      using convert_ul_error_kind [OF Inl] by (simp add: pc)
  next
    case (Inr jv)
    assume "(\<not> is_decimal js \<and> \<not> lenient_start js) \<or> (\<not> is_decimal rs \<and> \<not> lenient_start rs)"
    with Inr convert_ul_rejects [of js "''job_id''"]
    have "\<not> is_decimal rs \<and> \<not> lenient_start rs"
      by auto
    then obtain e where e: "convert_str_to_ul ''repetition_id'' rs = Inl e"
      using convert_ul_rejects [of rs "''repetition_id''"] by blast
    with Inr show ?thesis
      using convert_ul_error_kind [OF e] by (simp add: pc)
  qed
  have good: "canonical_decimal js \<Longrightarrow> canonical_decimal rs \<Longrightarrow>
      decimal_value js < 2 ^ 32 \<Longrightarrow> decimal_value rs < 2 ^ 32 \<Longrightarrow>
      parse_commandline (prog # toks) config
        = Inr \<lparr>m_job_id = word_of_nat (decimal_value js),
               m_repetition_id = word_of_nat (decimal_value rs), m_args = nm\<rparr>
      \<and> unat (word_of_nat (decimal_value js) :: 32 word) = decimal_value js
      \<and> unat (word_of_nat (decimal_value rs) :: 32 word) = decimal_value rs"
  proof -
    assume cj: "canonical_decimal js" and cr: "canonical_decimal rs"
      and bj: "decimal_value js < 2 ^ 32" and br: "decimal_value rs < 2 ^ 32"
    from bj have "decimal_value js < 2 ^ 64"
      by (rule less_trans) simp
    note aj = convert_ul_accepts [OF cj this, of "''job_id''"]
    from br have "decimal_value rs < 2 ^ 64"
      by (rule less_trans) simp
    note ar = convert_ul_accepts [OF cr this, of "''repetition_id''"]
    from bj br show ?thesis
      by (simp add: pc aj ar ucast_small unat_of_nat)
  qed
  from bad good show ?thesis
    unfolding nm_def by blast
qed

text \<open>
  C2. The claim: \<^verbatim>\<open>parse_commandline\<close> fails with the error of an invalid ID whenever an
  ID string is not a non-negative base-10 integer, in particular for the negative input
  \<^verbatim>\<open>-5\<close>. The code does not reject \<^verbatim>\<open>-5\<close>, neither as job ID nor as repetition ID:
  \<^verbatim>\<open>std::stoul\<close> reads the sign and negates in \<^verbatim>\<open>unsigned long\<close>, no character is left
  unconsumed, and the conversion to the 32-bit \<^verbatim>\<open>ID\<close> keeps the low 32 bits, so the call
  returns an \<^verbatim>\<open>Args\<close> whose ID is 4294967291. \<^verbatim>\<open>convert_str_to_ul\<close> itself calls what it
  accepts an unsigned integer number.
\<close>

theorem negative_id_accepted:
  "\<not> is_decimal ''-5''
   \<and> convert_str_to_ul ''job_id'' ''-5'' = Inr 18446744073709551611
   \<and> parse_commandline [''self'', ''--id=-5'', ''--rep=0'', ''--''] default_config
       = Inr \<lparr>m_job_id = 4294967291, m_repetition_id = 0, m_args = []\<rparr>
   \<and> parse_commandline [''self'', ''--id=0'', ''--rep=-5'', ''--''] default_config
       = Inr \<lparr>m_job_id = 0, m_repetition_id = 4294967291, m_args = []\<rparr>"
proof -
  have a: "\<not> is_decimal ''-5''"
    by code_simp
  have b: "convert_str_to_ul ''job_id'' ''-5'' = Inr 18446744073709551611"
    by code_simp
  have c: "parse_commandline [''self'', ''--id=-5'', ''--rep=0'', ''--''] default_config
       = Inr \<lparr>m_job_id = 4294967291, m_repetition_id = 0, m_args = []\<rparr>"
    by code_simp
  have d: "parse_commandline [''self'', ''--id=0'', ''--rep=-5'', ''--''] default_config
       = Inr \<lparr>m_job_id = 0, m_repetition_id = 4294967291, m_args = []\<rparr>"
    by code_simp
  from a b c d show ?thesis by blast
qed

section \<open>Integer parameters\<close>

lemma starts_with_append: "starts_with part (part @ post)"
  by (induction part) simp_all

lemma mentions_append: "mentions part (pre @ part @ post)"
proof (induction pre)
  case Nil
  show ?case
  proof (cases "part @ post")
    case Nil
    then show ?thesis by simp
  next
    case (Cons c m)
    then show ?thesis
      using starts_with_append [of part post] by simp
  qed
next
  case (Cons x pre)
  then show ?case by simp
qed

lemma mentions_middle: "msg = pre @ part @ post \<Longrightarrow> mentions part (what (MULTIJOB_ERROR msg))"
  using mentions_append [of part "''multijob: '' @ pre" post] by (simp add: MULTIJOB_ERROR_def)

lemma convert_messages:
  "mentions name (what (not_parseable_error d name s w))
   \<and> mentions (quoted s) (what (not_parseable_error d name s w))
   \<and> mentions d (what (not_parseable_error d name s w))
   \<and> mentions name (what (out_of_range_error name s w))
   \<and> mentions (quoted s) (what (out_of_range_error name s w))
   \<and> mentions name (what (unconsumed_chars_error d name s))
   \<and> mentions (quoted s) (what (unconsumed_chars_error d name s))
   \<and> mentions d (what (unconsumed_chars_error d name s))"
proof -
  have 1: "mentions name (what (not_parseable_error d name s w))"
    unfolding not_parseable_error_def by (rule mentions_middle [where pre = "''can't parse ''"]) simp
  have 2: "mentions (quoted s) (what (not_parseable_error d name s w))"
    unfolding not_parseable_error_def
    by (rule mentions_middle [where pre = "''can't parse '' @ name @ '': ''"]) simp
  have 3: "mentions d (what (not_parseable_error d name s w))"
    unfolding not_parseable_error_def
    by (rule mentions_middle [where pre = "''can't parse '' @ name @ '': '' @ quoted s @ '' is not ''"])
      simp
  have 4: "mentions name (what (out_of_range_error name s w))"
    unfolding out_of_range_error_def by (rule mentions_middle [where pre = "''can't parse ''"]) simp
  have 5: "mentions (quoted s) (what (out_of_range_error name s w))"
    unfolding out_of_range_error_def
    by (rule mentions_middle [where pre = "''can't parse '' @ name @ '': ''"]) simp
  have 6: "mentions name (what (unconsumed_chars_error d name s))"
    unfolding unconsumed_chars_error_def by (rule mentions_middle [where pre = "''can't parse ''"]) simp
  have 7: "mentions (quoted s) (what (unconsumed_chars_error d name s))"
    unfolding unconsumed_chars_error_def
    by (rule mentions_middle [where pre = "''can't parse '' @ name @ '': ''"]) simp
  have 8: "mentions d (what (unconsumed_chars_error d name s))"
    unfolding unconsumed_chars_error_def
    by (rule mentions_middle [where pre = "''can't parse '' @ name @ '': '' @ quoted s @ '' is not ''"
          and post = "[]"]) simp
  from 1 2 3 4 5 6 7 8 show ?thesis by blast
qed

lemma parse_kinds_differ: "not_parseable_error d name s w \<noteq> out_of_range_error name s w'"
  by (simp add: not_parseable_error_def out_of_range_error_def MULTIJOB_ERROR_def)

lemma get_i_result:
  "map_of (m_args self) name = Some s \<Longrightarrow>
   get_i name self = (convert_str_to_i name s, self\<lparr>m_args := AList.delete name (m_args self)\<rparr>)"
  by (simp add: get_i_def get_s_present)

lemma convert_i_none:
  "strto_scan s 0 = None \<Longrightarrow>
   convert_str_to_i name s = Inl (not_parseable_error ''an integer number'' name s ''stoi'')"
  by (simp add: convert_str_to_i_def convert_def stoi_def)

lemma convert_i_some:
  "strto_scan s 0 = Some (neg, mag, n) \<Longrightarrow>
   convert_str_to_i name s =
     (if (if neg then - mag else mag) < INT_MIN \<or> INT_MAX < (if neg then - mag else mag)
      then Inl (out_of_range_error name s ''stoi'')
      else if n \<noteq> length s then Inl (unconsumed_chars_error ''an integer number'' name s)
      else Inr (if neg then - mag else mag))"
  by (simp add: convert_str_to_i_def convert_def stoi_def Let_def INT_MIN_def INT_MAX_def
      LONG_MIN_def LONG_MAX_def)

text \<open>
  C3, as the code has it. For a parameter that is present with the value \<open>s\<close>, \<^verbatim>\<open>get_i\<close>
  erases the parameter and converts \<open>s\<close> with \<^verbatim>\<open>std::stoi\<close> and base 0. It fails with the
  not-parseable error when no conversion can be performed, with the out-of-range error
  when the signed value does not fit \<^verbatim>\<open>int\<close>, and with the error for unconsumed
  characters when the conversion stops in front of the end of \<open>s\<close>; otherwise it returns
  the signed value, which for a decimal numeral without a superfluous leading zero is
  the value of the numeral. Every error of \<^verbatim>\<open>get_i\<close> for a present parameter is one of
  these three; its message names the parameter and the quoted string, and it names the
  expected type unless it is the out-of-range error. The not-parseable error and the
  out-of-range error differ.
\<close>

theorem get_i_coercion:
  "map_of (m_args self) name = Some s \<Longrightarrow>
   snd (get_i name self) = self\<lparr>m_args := AList.delete name (m_args self)\<rparr>
   \<and> (strto_scan s 0 = None \<longrightarrow>
        fst (get_i name self) = Inl (not_parseable_error ''an integer number'' name s ''stoi''))
   \<and> (strto_scan s 0 = Some (neg, mag, n) \<longrightarrow>
        fst (get_i name self) =
          (if (if neg then - mag else mag) < INT_MIN \<or> INT_MAX < (if neg then - mag else mag)
           then Inl (out_of_range_error name s ''stoi'')
           else if n \<noteq> length s then Inl (unconsumed_chars_error ''an integer number'' name s)
           else Inr (if neg then - mag else mag)))
   \<and> (canonical_decimal s \<and> int (decimal_value s) \<le> INT_MAX \<longrightarrow>
        fst (get_i name self) = Inr (int (decimal_value s)))
   \<and> (\<forall>e. fst (get_i name self) = Inl e \<longrightarrow>
        is_IntCoercionError name s e \<and> mentions name (what e) \<and> mentions (quoted s) (what e)
        \<and> (e \<noteq> out_of_range_error name s ''stoi'' \<longrightarrow> mentions ''an integer number'' (what e)))
   \<and> not_parseable_error ''an integer number'' name s ''stoi'' \<noteq> out_of_range_error name s ''stoi''"
proof -
  assume p: "map_of (m_args self) name = Some s"
  note g = get_i_result [OF p]
  have 1: "snd (get_i name self) = self\<lparr>m_args := AList.delete name (m_args self)\<rparr>"
    by (simp add: g)
  have 2: "strto_scan s 0 = None \<Longrightarrow>
        fst (get_i name self) = Inl (not_parseable_error ''an integer number'' name s ''stoi'')"
    by (simp add: g convert_i_none)
  have 3: "strto_scan s 0 = Some (neg, mag, n) \<Longrightarrow>
        fst (get_i name self) =
          (if (if neg then - mag else mag) < INT_MIN \<or> INT_MAX < (if neg then - mag else mag)
           then Inl (out_of_range_error name s ''stoi'')
           else if n \<noteq> length s then Inl (unconsumed_chars_error ''an integer number'' name s)
           else Inr (if neg then - mag else mag))"
    by (simp only: g fst_conv convert_i_some)
  have 4: "canonical_decimal s \<Longrightarrow> int (decimal_value s) \<le> INT_MAX \<Longrightarrow>
        fst (get_i name self) = Inr (int (decimal_value s))"
  proof -
    assume c: "canonical_decimal s" and b: "int (decimal_value s) \<le> INT_MAX"
    have "INT_MIN \<le> int (decimal_value s)"
      by (simp add: INT_MIN_def)
    with b show ?thesis
      by (simp add: g convert_i_some [OF scan_canonical [OF c]])
  qed
  have 5: "\<And>e. fst (get_i name self) = Inl e \<Longrightarrow>
        is_IntCoercionError name s e \<and> mentions name (what e) \<and> mentions (quoted s) (what e)
        \<and> (e \<noteq> out_of_range_error name s ''stoi'' \<longrightarrow> mentions ''an integer number'' (what e))"
  proof -
    fix e
    assume "fst (get_i name self) = Inl e"
    then have "convert_str_to_i name s = Inl e"
      by (simp add: g)
    then have k: "e = not_parseable_error ''an integer number'' name s ''stoi''
        \<or> e = out_of_range_error name s ''stoi''
        \<or> e = unconsumed_chars_error ''an integer number'' name s"
      by (auto simp: convert_str_to_i_def convert_def stoi_def Let_def
          split: option.splits if_splits)
    then show "is_IntCoercionError name s e \<and> mentions name (what e) \<and> mentions (quoted s) (what e)
        \<and> (e \<noteq> out_of_range_error name s ''stoi'' \<longrightarrow> mentions ''an integer number'' (what e))"
      using convert_messages [of name "''an integer number''" s "''stoi''"]
      by (auto simp: is_IntCoercionError_def)
  qed
  note 6 = parse_kinds_differ [of "''an integer number''" name s "''stoi''" "''stoi''"]
  from 1 2 3 4 5 6 show ?thesis by blast
qed

theorem get_i_coercion_witness:
  "map_of (m_args \<lparr>m_job_id = 4, m_repetition_id = 5, m_args = [(''a'', ''-17'')]\<rparr>) ''a''
     = Some ''-17''
   \<and> strto_scan ''-17'' 0 = Some (True, 17, 3)
   \<and> get_i ''a'' \<lparr>m_job_id = 4, m_repetition_id = 5, m_args = [(''a'', ''-17'')]\<rparr>
       = (Inr (- 17), \<lparr>m_job_id = 4, m_repetition_id = 5, m_args = []\<rparr>)
   \<and> map_of (m_args \<lparr>m_job_id = 4, m_repetition_id = 5, m_args = [(''a'', ''4.2'')]\<rparr>) ''a''
       = Some ''4.2''
   \<and> strto_scan ''4.2'' 0 = Some (False, 4, 1)
   \<and> fst (get_i ''a'' \<lparr>m_job_id = 4, m_repetition_id = 5, m_args = [(''a'', ''4.2'')]\<rparr>)
       = Inl (unconsumed_chars_error ''an integer number'' ''a'' ''4.2'')
   \<and> mentions ''an integer number'' (what (unconsumed_chars_error ''an integer number'' ''a'' ''4.2''))
   \<and> map_of (m_args \<lparr>m_job_id = 4, m_repetition_id = 5, m_args = [(''a'', ''abc'')]\<rparr>) ''a''
       = Some ''abc''
   \<and> strto_scan ''abc'' 0 = None
   \<and> fst (get_i ''a'' \<lparr>m_job_id = 4, m_repetition_id = 5, m_args = [(''a'', ''abc'')]\<rparr>)
       = Inl (not_parseable_error ''an integer number'' ''a'' ''abc'' ''stoi'')
   \<and> map_of (m_args \<lparr>m_job_id = 4, m_repetition_id = 5, m_args = [(''a'', ''403'')]\<rparr>) ''a''
       = Some ''403''
   \<and> canonical_decimal ''403'' \<and> int (decimal_value ''403'') \<le> INT_MAX
   \<and> fst (get_i ''a'' \<lparr>m_job_id = 4, m_repetition_id = 5, m_args = [(''a'', ''403'')]\<rparr>)
       = Inr 403"
proof -
  let ?A = "\<lparr>m_job_id = 4, m_repetition_id = 5, m_args = [(''a'', ''-17'')]\<rparr>"
  let ?B = "\<lparr>m_job_id = 4, m_repetition_id = 5, m_args = [(''a'', ''4.2'')]\<rparr>"
  let ?C = "\<lparr>m_job_id = 4, m_repetition_id = 5, m_args = [(''a'', ''abc'')]\<rparr>"
  let ?D = "\<lparr>m_job_id = 4, m_repetition_id = 5, m_args = [(''a'', ''403'')]\<rparr>"
  have ha: "map_of (m_args ?A) ''a'' = Some ''-17''" by simp
  have hb: "map_of (m_args ?B) ''a'' = Some ''4.2''" by simp
  have hc: "map_of (m_args ?C) ''a'' = Some ''abc''" by simp
  have hd: "map_of (m_args ?D) ''a'' = Some ''403''" by simp
  have sa: "strto_scan ''-17'' 0 = Some (True, 17, 3)" by code_simp
  have sb: "strto_scan ''4.2'' 0 = Some (False, 4, 1)" by code_simp
  have sc: "strto_scan ''abc'' 0 = None" by code_simp
  have cd: "canonical_decimal ''403''" by code_simp
  have vd: "decimal_value ''403'' = 403" by code_simp
  then have bd: "int (decimal_value ''403'') \<le> INT_MAX" by (simp add: INT_MAX_def)
  note ta = get_i_coercion [OF ha, of True 17 3]
  note tb = get_i_coercion [OF hb, of False 4 1]
  note tc = get_i_coercion [OF hc, of False 0 0]
  note td = get_i_coercion [OF hd, of False 0 0]
  from ta sa have ra1: "snd (get_i ''a'' ?A) = \<lparr>m_job_id = 4, m_repetition_id = 5, m_args = []\<rparr>"
    and ra2: "fst (get_i ''a'' ?A) = Inr (- 17)"
    by (simp_all add: INT_MIN_def INT_MAX_def)
  then have ra: "get_i ''a'' ?A = (Inr (- 17), \<lparr>m_job_id = 4, m_repetition_id = 5, m_args = []\<rparr>)"
    by (simp add: prod_eq_iff)
  from tb sb have rb: "fst (get_i ''a'' ?B) = Inl (unconsumed_chars_error ''an integer number'' ''a'' ''4.2'')"
    by (simp add: INT_MIN_def INT_MAX_def)
  have ne: "unconsumed_chars_error ''an integer number'' ''a'' ''4.2'' \<noteq> out_of_range_error ''a'' ''4.2'' ''stoi''"
    by (simp add: unconsumed_chars_error_def out_of_range_error_def MULTIJOB_ERROR_def)
  from tb rb ne have mb: "mentions ''an integer number'' (what (unconsumed_chars_error ''an integer number'' ''a'' ''4.2''))"
    by blast
  from tc sc have rc: "fst (get_i ''a'' ?C) = Inl (not_parseable_error ''an integer number'' ''a'' ''abc'' ''stoi'')"
    by simp
  from td cd bd have rd: "fst (get_i ''a'' ?D) = Inr 403"
    by (simp add: vd)
  from ha sa ra hb sb rb mb hc sc rc hd cd bd rd show ?thesis
    by blast
qed

text \<open>
  The claim C3 as stated does not hold for the out-of-range error: its message,
  \<^verbatim>\<open>multijob: can't parse a: "99999999999" is out of range: stoi\<close>, names the
  parameter and the string and does not name the expected type.
\<close>

theorem get_i_out_of_range_counterexample:
  "map_of (m_args \<lparr>m_job_id = 4, m_repetition_id = 5, m_args = [(''a'', ''99999999999'')]\<rparr>) ''a''
     = Some ''99999999999''
   \<and> fst (get_i ''a'' \<lparr>m_job_id = 4, m_repetition_id = 5, m_args = [(''a'', ''99999999999'')]\<rparr>)
       = Inl (out_of_range_error ''a'' ''99999999999'' ''stoi'')
   \<and> what (out_of_range_error ''a'' ''99999999999'' ''stoi'')
       = ''multijob: can't parse a: '' @ [dquote] @ ''99999999999'' @ [dquote]
         @ '' is out of range: stoi''
   \<and> \<not> mentions ''an integer number'' (what (out_of_range_error ''a'' ''99999999999'' ''stoi''))
   \<and> \<not> mentions ''int'' (what (out_of_range_error ''a'' ''99999999999'' ''stoi''))"
proof -
  have a: "map_of (m_args \<lparr>m_job_id = 4, m_repetition_id = 5, m_args = [(''a'', ''99999999999'')]\<rparr>) ''a''
     = Some ''99999999999''"
    by simp
  have b: "fst (get_i ''a'' \<lparr>m_job_id = 4, m_repetition_id = 5, m_args = [(''a'', ''99999999999'')]\<rparr>)
       = Inl (out_of_range_error ''a'' ''99999999999'' ''stoi'')"
    by code_simp
  have c: "what (out_of_range_error ''a'' ''99999999999'' ''stoi'')
       = ''multijob: can't parse a: '' @ [dquote] @ ''99999999999'' @ [dquote]
         @ '' is out of range: stoi''"
    by code_simp
  have d: "\<not> mentions ''an integer number'' (what (out_of_range_error ''a'' ''99999999999'' ''stoi''))"
    by code_simp
  have e: "\<not> mentions ''int'' (what (out_of_range_error ''a'' ''99999999999'' ''stoi''))"
    by code_simp
  from a b c d e show ?thesis by blast
qed

end
